theory Spec2Isabelle
  imports Main "HOL-Library.Word"
begin

unbundle bit_operations_syntax

section \<open>JavaScript values used by the vault core\<close>

text \<open>
  A JavaScript string is a sequence of 16-bit code units; a \<open>Uint8Array\<close> is a
  sequence of bytes. ASCII literals of the source are written through \<open>of_ascii\<close>.
\<close>

type_synonym code_unit = "16 word"
type_synonym jsstring = "code_unit list"
type_synonym byte = "8 word"
type_synonym bytes = "byte list"

definition of_ascii :: "string \<Rightarrow> jsstring" where
  "of_ascii s = map (\<lambda>c. of_nat (of_char c)) s"

text \<open>Errors thrown by the platform functions and by the source itself.\<close>

datatype error =
    InvalidCharacterError  \<comment> \<open>\<open>btoa\<close> / \<open>atob\<close> on a string they reject\<close>
  | RangeError             \<comment> \<open>a call with more arguments than the engine accepts\<close>
  | OperationError         \<comment> \<open>\<open>crypto.subtle.decrypt\<close> rejecting the data\<close>
  | SyntaxError            \<comment> \<open>\<open>JSON.parse\<close> on malformed text\<close>
  | DecryptionFailed       \<comment> \<open>\<open>Decryption failed. Invalid password or corrupted data.\<close>\<close>
  | InvalidMasterPassword  \<comment> \<open>\<open>Invalid master password\<close>\<close>
  | DataSourceError        \<comment> \<open>any error raised by a non-local data source\<close>

subsection \<open>\<open>TextEncoder.encode\<close> and \<open>TextDecoder.decode\<close> (UTF-8)\<close>

text \<open>
  \<open>TextEncoder.encode\<close> first converts the string to scalar values, replacing every
  unpaired surrogate by U+FFFD, and then writes each scalar value in UTF-8.
\<close>

definition high_surrogate :: "code_unit \<Rightarrow> bool" where
  "high_surrogate c = (0xD800 \<le> unat c \<and> unat c \<le> 0xDBFF)"

definition low_surrogate :: "code_unit \<Rightarrow> bool" where
  "low_surrogate c = (0xDC00 \<le> unat c \<and> unat c \<le> 0xDFFF)"

fun scalars_of_utf16 :: "jsstring \<Rightarrow> nat list" where
  "scalars_of_utf16 [] = []"
| "scalars_of_utf16 [c] =
     (if high_surrogate c \<or> low_surrogate c then [0xFFFD] else [unat c])"
| "scalars_of_utf16 (c # d # ds) =
     (if high_surrogate c then
        (if low_surrogate d
         then (0x10000 + (unat c - 0xD800) * 0x400 + (unat d - 0xDC00)) # scalars_of_utf16 ds
         else 0xFFFD # scalars_of_utf16 (d # ds))
      else if low_surrogate c then 0xFFFD # scalars_of_utf16 (d # ds)
      else unat c # scalars_of_utf16 (d # ds))"

definition utf8_of_scalar :: "nat \<Rightarrow> bytes" where
  "utf8_of_scalar cp =
     (if cp < 0x80 then [of_nat cp]
      else if cp < 0x800 then [of_nat (0xC0 + cp div 64), of_nat (0x80 + cp mod 64)]
      else if cp < 0x10000 then
        [of_nat (0xE0 + cp div 4096), of_nat (0x80 + cp div 64 mod 64), of_nat (0x80 + cp mod 64)]
      else
        [of_nat (0xF0 + cp div 262144), of_nat (0x80 + cp div 4096 mod 64),
         of_nat (0x80 + cp div 64 mod 64), of_nat (0x80 + cp mod 64)])"

definition TextEncoder_encode :: "jsstring \<Rightarrow> bytes" where
  "TextEncoder_encode s = concat (map utf8_of_scalar (scalars_of_utf16 s))"

text \<open>
  \<open>new TextDecoder()\<close> is the UTF-8 decoder with \<open>fatal = false\<close> and
  \<open>ignoreBOM = false\<close>: a malformed sequence yields U+FFFD (the offending byte is
  read again when it ended a started sequence), and a leading U+FEFF is removed from
  the output. The decoder state is the one of the Encoding Standard.
\<close>

record utf8_state =
  code_point :: nat
  bytes_seen :: nat
  bytes_needed :: nat
  lower_boundary :: nat
  upper_boundary :: nat

definition utf8_init :: utf8_state where
  "utf8_init = \<lparr>code_point = 0, bytes_seen = 0, bytes_needed = 0,
                lower_boundary = 0x80, upper_boundary = 0xBF\<rparr>"

function utf8_decoder :: "utf8_state \<Rightarrow> bytes \<Rightarrow> nat list" where
  "utf8_decoder st [] = (if bytes_needed st \<noteq> 0 then [0xFFFD] else [])"
| "utf8_decoder st (b # bs) =
     (if bytes_needed st = 0 then
        (if unat b \<le> 0x7F then unat b # utf8_decoder st bs
         else if 0xC2 \<le> unat b \<and> unat b \<le> 0xDF then
           utf8_decoder (st\<lparr>bytes_needed := 1, code_point := unat b mod 32\<rparr>) bs
         else if 0xE0 \<le> unat b \<and> unat b \<le> 0xEF then
           utf8_decoder (st\<lparr>lower_boundary := (if unat b = 0xE0 then 0xA0 else lower_boundary st),
                             upper_boundary := (if unat b = 0xED then 0x9F else upper_boundary st),
                             bytes_needed := 2, code_point := unat b mod 16\<rparr>) bs
         else if 0xF0 \<le> unat b \<and> unat b \<le> 0xF4 then
           utf8_decoder (st\<lparr>lower_boundary := (if unat b = 0xF0 then 0x90 else lower_boundary st),
                             upper_boundary := (if unat b = 0xF4 then 0x8F else upper_boundary st),
                             bytes_needed := 3, code_point := unat b mod 8\<rparr>) bs
         else 0xFFFD # utf8_decoder st bs)
      else if unat b < lower_boundary st \<or> upper_boundary st < unat b then
        0xFFFD # utf8_decoder utf8_init (b # bs)
      else if bytes_seen st + 1 \<noteq> bytes_needed st then
        utf8_decoder (st\<lparr>lower_boundary := 0x80, upper_boundary := 0xBF,
                          code_point := code_point st * 64 + unat b mod 64,
                          bytes_seen := bytes_seen st + 1\<rparr>) bs
      else (code_point st * 64 + unat b mod 64) # utf8_decoder utf8_init bs)"
  by pat_completeness auto
termination
  by (relation "measure (\<lambda>(st, bs). 2 * length bs + (if bytes_needed st = 0 then 0 else 1))")
     (auto simp: utf8_init_def)

definition utf16_of_scalar :: "nat \<Rightarrow> jsstring" where
  "utf16_of_scalar cp =
     (if cp < 0x10000 then [of_nat cp]
      else [of_nat (0xD800 + (cp - 0x10000) div 0x400),
            of_nat (0xDC00 + (cp - 0x10000) mod 0x400)])"

definition strip_bom :: "nat list \<Rightarrow> nat list" where
  "strip_bom cps = (case cps of [] \<Rightarrow> [] | c # rest \<Rightarrow> if c = 0xFEFF then rest else cps)"

definition TextDecoder_decode :: "bytes \<Rightarrow> jsstring" where
  "TextDecoder_decode bs = concat (map utf16_of_scalar (strip_bom (utf8_decoder utf8_init bs)))"

subsection \<open>\<open>btoa\<close>, \<open>atob\<close> and the conversions around them\<close>

text \<open>
  A binary string has one code unit for every byte, and
  \<open>Uint8Array.from(s, c => c.charCodeAt(0))\<close> keeps the low 8 bits of every code unit.
  \<open>String.fromCharCode(...combined)\<close> passes every byte as an argument of one call:
  it returns the binary string of the bytes, and throws a \<open>RangeError\<close> when there are
  more bytes than the engine accepts arguments. That limit differs between engines and
  is a parameter.
\<close>

definition binary_string :: "bytes \<Rightarrow> jsstring" where
  "binary_string bs = map ucast bs"

definition String_fromCharCode :: "nat \<Rightarrow> bytes \<Rightarrow> error + jsstring" where
  "String_fromCharCode limit bs =
     (if limit < length bs then Inl RangeError else Inr (binary_string bs))"

definition Uint8Array_from :: "jsstring \<Rightarrow> bytes" where
  "Uint8Array_from s = map ucast s"

definition b64_char :: "nat \<Rightarrow> code_unit" where
  "b64_char n =
     (if n < 26 then of_nat (0x41 + n)
      else if n < 52 then of_nat (0x61 + (n - 26))
      else if n < 62 then of_nat (0x30 + (n - 52))
      else if n = 62 then 0x2B else 0x2F)"

definition b64_index :: "code_unit \<Rightarrow> nat option" where
  "b64_index c =
     (if 0x41 \<le> unat c \<and> unat c \<le> 0x5A then Some (unat c - 0x41)
      else if 0x61 \<le> unat c \<and> unat c \<le> 0x7A then Some (unat c - 0x61 + 26)
      else if 0x30 \<le> unat c \<and> unat c \<le> 0x39 then Some (unat c - 0x30 + 52)
      else if unat c = 0x2B then Some 62
      else if unat c = 0x2F then Some 63
      else None)"

text \<open>The 6-bit groups of a byte sequence, the last group filled with zero bits.\<close>

fun sextets_of :: "bytes \<Rightarrow> nat list" where
  "sextets_of [] = []"
| "sextets_of [a] = [unat a div 4, unat a mod 4 * 16]"
| "sextets_of [a, b] = [unat a div 4, unat a mod 4 * 16 + unat b div 16, unat b mod 16 * 4]"
| "sextets_of (a # b # c # rest) =
     [unat a div 4, unat a mod 4 * 16 + unat b div 16, unat b mod 16 * 4 + unat c div 64,
      unat c mod 64] @ sextets_of rest"

definition base64_encode :: "bytes \<Rightarrow> jsstring" where
  "base64_encode bs =
     map b64_char (sextets_of bs) @ replicate ((3 - length bs mod 3) mod 3) 0x3D"

definition btoa :: "jsstring \<Rightarrow> error + jsstring" where
  "btoa s = (if list_ex (\<lambda>c. 0xFF < unat c) s then Inl InvalidCharacterError
             else Inr (base64_encode (map ucast s)))"

text \<open>
  \<open>atob\<close> is the forgiving base64 decoder: ASCII whitespace is removed, one or two
  trailing \<open>=\<close> are removed when the length is a multiple of four, and the unused
  low bits of a final group of two or three characters are discarded unchecked.
\<close>

definition ascii_whitespace :: "code_unit \<Rightarrow> bool" where
  "ascii_whitespace c = (c = 0x09 \<or> c = 0x0A \<or> c = 0x0C \<or> c = 0x0D \<or> c = 0x20)"

definition strip_equals :: "jsstring \<Rightarrow> jsstring" where
  "strip_equals s = (if s \<noteq> [] \<and> last s = 0x3D then butlast s else s)"

fun bytes_of_sextets :: "nat list \<Rightarrow> bytes" where
  "bytes_of_sextets (p # q # r # s # rest) =
     [of_nat (p * 4 + q div 16), of_nat (q mod 16 * 16 + r div 4), of_nat (r mod 4 * 64 + s)]
     @ bytes_of_sextets rest"
| "bytes_of_sextets [p, q, r] = [of_nat (p * 4 + q div 16), of_nat (q mod 16 * 16 + r div 4)]"
| "bytes_of_sextets [p, q] = [of_nat (p * 4 + q div 16)]"
| "bytes_of_sextets _ = []"

definition atob :: "jsstring \<Rightarrow> error + jsstring" where
  "atob s =
     (let d = filter (\<lambda>c. \<not> ascii_whitespace c) s;
          d = (if length d mod 4 = 0 then strip_equals (strip_equals d) else d)
      in if length d mod 4 = 1 then Inl InvalidCharacterError
         else (case those (map b64_index d) of
                 None \<Rightarrow> Inl InvalidCharacterError
               | Some sx \<Rightarrow> Inr (binary_string (bytes_of_sextets sx))))"

text \<open>\<open>b.toString(16).padStart(2, '0')\<close> for a byte \<open>b\<close>, joined over an array.\<close>

definition hex_digit :: "nat \<Rightarrow> code_unit" where
  "hex_digit n = (if n < 10 then of_nat (0x30 + n) else of_nat (0x61 + (n - 10)))"

definition hex_string :: "bytes \<Rightarrow> jsstring" where
  "hex_string bs = concat (map (\<lambda>b. [hex_digit (unat b div 16), hex_digit (unat b mod 16)]) bs)"

section \<open>Regular expressions of \<open>passwordGenerator.ts\<close>\<close>

text \<open>
  The patterns of \<open>calculateStrength\<close> are sequences of character classes and
  \<open>.*\<close>. A class is a list of inclusive ranges, possibly negated (\<open>[^...]\<close>).
  Without the \<open>s\<close> flag, \<open>.\<close> matches every code unit except the four line
  terminators U+000A, U+000D, U+2028 and U+2029.
\<close>

datatype re_atom = CharClass bool "(code_unit \<times> code_unit) list" | DotStar

definition in_ranges :: "(code_unit \<times> code_unit) list \<Rightarrow> code_unit \<Rightarrow> bool" where
  "in_ranges rs c = list_ex (\<lambda>(lo, hi). lo \<le> c \<and> c \<le> hi) rs"

definition line_terminator :: "code_unit \<Rightarrow> bool" where
  "line_terminator c = (c = 0x0A \<or> c = 0x0D \<or> c = 0x2028 \<or> c = 0x2029)"

fun class_matches :: "bool \<Rightarrow> (code_unit \<times> code_unit) list \<Rightarrow> code_unit \<Rightarrow> bool" where
  "class_matches negated rs c = (if negated then \<not> in_ranges rs c else in_ranges rs c)"

text \<open>\<open>match_here p s\<close>: the pattern \<open>p\<close> matches a prefix of \<open>s\<close>.\<close>

fun match_here :: "re_atom list \<Rightarrow> jsstring \<Rightarrow> bool" where
  "match_here [] s = True"
| "match_here (CharClass negated rs # p) [] = False"
| "match_here (CharClass negated rs # p) (c # cs) =
     (class_matches negated rs c \<and> match_here p cs)"
| "match_here (DotStar # p) [] = match_here p []"
| "match_here (DotStar # p) (c # cs) =
     (match_here p (c # cs) \<or> (\<not> line_terminator c \<and> match_here (DotStar # p) cs))"

text \<open>\<open>RegExp.prototype.test\<close> without anchors: a match may start at any index.\<close>

fun regex_test :: "re_atom list \<Rightarrow> jsstring \<Rightarrow> bool" where
  "regex_test p [] = match_here p []"
| "regex_test p (c # cs) = (match_here p (c # cs) \<or> regex_test p cs)"

definition lower_ranges :: "(code_unit \<times> code_unit) list" where
  "lower_ranges = [(0x61, 0x7A)]"

definition upper_ranges :: "(code_unit \<times> code_unit) list" where
  "upper_ranges = [(0x41, 0x5A)]"

definition digit_ranges :: "(code_unit \<times> code_unit) list" where
  "digit_ranges = [(0x30, 0x39)]"

definition alnum_ranges :: "(code_unit \<times> code_unit) list" where
  "alnum_ranges = [(0x61, 0x7A), (0x41, 0x5A), (0x30, 0x39)]"

section \<open>\<open>PasswordGenerator.calculateStrength\<close>\<close>

record strength =
  score :: nat
  label :: string
  color :: string

text \<open>The value of \<open>score\<close> before \<open>Math.min(score, 100)\<close>.\<close>

definition raw_score :: "jsstring \<Rightarrow> nat" where
  "raw_score password =
     (if length password \<ge> 8 then 20 else 0)
   + (if length password \<ge> 12 then 15 else 0)
   + (if length password \<ge> 16 then 15 else 0)
   + (if regex_test [CharClass False lower_ranges] password then 10 else 0)
   + (if regex_test [CharClass False upper_ranges] password then 10 else 0)
   + (if regex_test [CharClass False digit_ranges] password then 10 else 0)
   + (if regex_test [CharClass True alnum_ranges] password then 10 else 0)
   + (if regex_test [CharClass False lower_ranges, DotStar, CharClass False lower_ranges] password
      then 5 else 0)
   + (if regex_test [CharClass False upper_ranges, DotStar, CharClass False upper_ranges] password
      then 5 else 0)
   + (if regex_test [CharClass False digit_ranges, DotStar, CharClass False digit_ranges] password
      then 5 else 0)
   + (if regex_test [CharClass True alnum_ranges, DotStar, CharClass True alnum_ranges] password
      then 5 else 0)"

definition calculateStrength :: "jsstring \<Rightarrow> strength" where
  "calculateStrength password =
     (let score = min (raw_score password) 100 in
      if score \<ge> 80 then \<lparr>score = score, label = ''Strong'', color = ''#059669''\<rparr>
      else if score \<ge> 60 then \<lparr>score = score, label = ''Good'', color = ''#3B82F6''\<rparr>
      else if score \<ge> 40 then \<lparr>score = score, label = ''Fair'', color = ''#F59E0B''\<rparr>
      else \<lparr>score = score, label = ''Weak'', color = ''#EF4444''\<rparr>)"

section \<open>Well-formed strings\<close>

text \<open>A string is well-formed UTF-16 when every surrogate is part of a pair.\<close>

fun wellformed_utf16 :: "jsstring \<Rightarrow> bool" where
  "wellformed_utf16 [] = True"
| "wellformed_utf16 [c] = (\<not> high_surrogate c \<and> \<not> low_surrogate c)"
| "wellformed_utf16 (c # d # ds) =
     (if high_surrogate c then low_surrogate d \<and> wellformed_utf16 ds
      else \<not> low_surrogate c \<and> wellformed_utf16 (d # ds))"

definition starts_with_bom :: "jsstring \<Rightarrow> bool" where
  "starts_with_bom s = (case s of [] \<Rightarrow> False | c # cs \<Rightarrow> c = 0xFEFF)"

text \<open>The Unicode scalar values: the code points that are not surrogates.\<close>

definition scalar_value :: "nat \<Rightarrow> bool" where
  "scalar_value cp = (cp < 0xD800 \<or> (0xE000 \<le> cp \<and> cp < 0x110000))"

section \<open>Platform services: Web Crypto, randomness, JSON\<close>

text \<open>
  The source calls \<open>crypto.subtle\<close> for PBKDF2, AES-GCM and SHA-256. These are not
  code of the repository: they are taken as a parameter, a record of functions over an
  arbitrary key type \<open>'k\<close>. \<open>pbkdf2\<close> receives the encoded password, the salt and the
  iteration count (hash SHA-256, 256-bit AES-GCM key); \<open>aes_gcm_decrypt\<close> returns
  \<open>None\<close> where \<open>crypto.subtle.decrypt\<close> rejects with an \<open>OperationError\<close>. The
  record also holds the number of arguments that the engine accepts in one call.
\<close>

record 'k webcrypto =
  pbkdf2 :: "bytes \<Rightarrow> bytes \<Rightarrow> nat \<Rightarrow> 'k"
  aes_gcm_encrypt :: "'k \<Rightarrow> bytes \<Rightarrow> bytes \<Rightarrow> bytes"
  aes_gcm_decrypt :: "'k \<Rightarrow> bytes \<Rightarrow> bytes \<Rightarrow> bytes option"
  sha256 :: "bytes \<Rightarrow> bytes"
  max_arguments :: nat

text \<open>
  \<open>crypto.getRandomValues(new Uint8Array(n))\<close> consumes the next \<open>n\<close> bytes of the
  generator; the generator is the sequence of bytes it will deliver.
\<close>

type_synonym entropy = "nat \<Rightarrow> byte"

definition getRandomValues :: "nat \<Rightarrow> entropy \<Rightarrow> bytes \<times> entropy" where
  "getRandomValues n r = (map r [0..<n], \<lambda>i. r (n + i))"

text \<open>\<open>Array.prototype.slice(begin, end)\<close> for \<open>begin \<le> end\<close>; both are clamped to the length.\<close>

definition slice' :: "nat \<Rightarrow> nat \<Rightarrow> 'a list \<Rightarrow> 'a list" where
  "slice' b e xs = take (e - b) (drop b xs)"

text \<open>The salt and the nonce that one call of \<open>encrypt\<close> draws from the generator \<open>r\<close>.\<close>

definition drawn_salt :: "entropy \<Rightarrow> bytes" where
  "drawn_salt r = fst (getRandomValues 16 r)"

definition drawn_iv :: "entropy \<Rightarrow> bytes" where
  "drawn_iv r = fst (getRandomValues 12 (snd (getRandomValues 16 r)))"

section \<open>\<open>EncryptionService\<close>\<close>

text \<open>
  The methods as they are written. \<open>encrypt\<close> fails where the spread call of
  \<open>String.fromCharCode\<close> does; the quota of \<open>localStorage\<close> further down is not
  part of the model.
\<close>

definition deriveKey :: "'k webcrypto \<Rightarrow> jsstring \<Rightarrow> bytes \<Rightarrow> 'k" where
  "deriveKey wc password salt = pbkdf2 wc (TextEncoder_encode password) salt 100000"

text \<open>The bytes \<open>combined\<close> that a call of \<open>encrypt\<close> assembles.\<close>

definition combined_bytes :: "'k webcrypto \<Rightarrow> jsstring \<Rightarrow> jsstring \<Rightarrow> entropy \<Rightarrow> bytes" where
  "combined_bytes wc plaintext password r =
     drawn_salt r @ drawn_iv r
     @ aes_gcm_encrypt wc (deriveKey wc password (drawn_salt r)) (drawn_iv r)
         (TextEncoder_encode plaintext)"

definition encrypt :: "'k webcrypto \<Rightarrow> jsstring \<Rightarrow> jsstring \<Rightarrow> entropy \<Rightarrow> (error + jsstring) \<times> entropy" where
  "encrypt wc plaintext password r =
     (let (salt, r1) = getRandomValues 16 r;
          (iv, r2) = getRandomValues 12 r1;
          key = deriveKey wc password salt;
          encryptedData = aes_gcm_encrypt wc key iv (TextEncoder_encode plaintext);
          combined = salt @ iv @ encryptedData
      in case String_fromCharCode (max_arguments wc) combined of
           Inl e \<Rightarrow> (Inl e, r2)
         | Inr s \<Rightarrow> (btoa s, r2))"

text \<open>The body of the \<open>try\<close> block of \<open>decrypt\<close>, with the error each step can throw.\<close>

definition decrypt_try :: "'k webcrypto \<Rightarrow> jsstring \<Rightarrow> jsstring \<Rightarrow> error + jsstring" where
  "decrypt_try wc ciphertext password =
     (case atob ciphertext of
        Inl e \<Rightarrow> Inl e
      | Inr bin \<Rightarrow>
          (let combined = Uint8Array_from bin;
               salt = slice' 0 16 combined;
               iv = slice' 16 28 combined;
               data = drop 28 combined;
               key = deriveKey wc password salt
           in case aes_gcm_decrypt wc key iv data of
                None \<Rightarrow> Inl OperationError
              | Some decryptedData \<Rightarrow> Inr (TextDecoder_decode decryptedData)))"

text \<open>The \<open>catch\<close> replaces whatever was thrown by one fixed error.\<close>

definition decrypt :: "'k webcrypto \<Rightarrow> jsstring \<Rightarrow> jsstring \<Rightarrow> error + jsstring" where
  "decrypt wc ciphertext password =
     (case decrypt_try wc ciphertext password of
        Inl e \<Rightarrow> Inl DecryptionFailed
      | Inr plaintext \<Rightarrow> Inr plaintext)"

text \<open>\<open>decrypt(await encrypt(plaintext, password), password')\<close>, the composition of the two.\<close>

definition decrypt_encrypted ::
  "'k webcrypto \<Rightarrow> jsstring \<Rightarrow> jsstring \<Rightarrow> jsstring \<Rightarrow> entropy \<Rightarrow> error + jsstring" where
  "decrypt_encrypted wc plaintext password password' r =
     (case fst (encrypt wc plaintext password r) of
        Inl e \<Rightarrow> Inl e
      | Inr token \<Rightarrow> decrypt wc token password')"

definition hashPassword :: "'k webcrypto \<Rightarrow> jsstring \<Rightarrow> jsstring" where
  "hashPassword wc password = hex_string (sha256 wc (TextEncoder_encode password))"

section \<open>The environment of the local backend\<close>

text \<open>
  \<open>localStorage\<close>, the random generator, and the successive results of
  \<open>crypto.randomUUID()\<close> and \<open>new Date().toISOString()\<close>.
\<close>

record world =
  localStorage :: "string \<rightharpoonup> jsstring"
  random_bytes :: entropy
  random_uuids :: "nat \<Rightarrow> jsstring"
  clock :: "nat \<Rightarrow> jsstring"

definition randomUUID :: "'a world_scheme \<Rightarrow> jsstring \<times> 'a world_scheme" where
  "randomUUID w = (random_uuids w 0, w\<lparr>random_uuids := (\<lambda>i. random_uuids w (Suc i))\<rparr>)"

definition now_ISOString :: "'a world_scheme \<Rightarrow> jsstring \<times> 'a world_scheme" where
  "now_ISOString w = (clock w 0, w\<lparr>clock := (\<lambda>i. clock w (Suc i))\<rparr>)"

text \<open>A value is falsy in a condition when it is \<open>null\<close> or the empty string.\<close>

definition truthy :: "jsstring option \<Rightarrow> bool" where
  "truthy v = (case v of None \<Rightarrow> False | Some s \<Rightarrow> s \<noteq> [])"


section \<open>\<open>LocalStorageService\<close>: the master-password verifier\<close>

definition ENTRIES_KEY :: string where
  "ENTRIES_KEY = ''securevault_entries''"

definition CATEGORIES_KEY :: string where
  "CATEGORIES_KEY = ''securevault_categories''"

definition MASTER_PASSWORD_HASH_KEY :: string where
  "MASTER_PASSWORD_HASH_KEY = ''securevault_master_hash''"

definition LocalStorageService_setMasterPassword ::
  "'k webcrypto \<Rightarrow> jsstring \<Rightarrow> 'a world_scheme \<Rightarrow> 'a world_scheme" where
  "LocalStorageService_setMasterPassword wc password w =
     (let hash = hashPassword wc password
      in w\<lparr>localStorage := (localStorage w)(MASTER_PASSWORD_HASH_KEY \<mapsto> hash)\<rparr>)"

definition LocalStorageService_verifyMasterPassword ::
  "'k webcrypto \<Rightarrow> jsstring \<Rightarrow> 'a world_scheme \<Rightarrow> bool" where
  "LocalStorageService_verifyMasterPassword wc password w =
     (let storedHash = localStorage w MASTER_PASSWORD_HASH_KEY
      in if \<not> truthy storedHash then False
         else Some (hashPassword wc password) = storedHash)"

definition LocalStorageService_hasMasterPassword :: "'a world_scheme \<Rightarrow> bool" where
  "LocalStorageService_hasMasterPassword w = truthy (localStorage w MASTER_PASSWORD_HASH_KEY)"

section \<open>Vault entries\<close>

record PasswordEntry =
  id' :: jsstring
  title :: jsstring
  username :: "jsstring option"
  password :: jsstring
  url :: "jsstring option"
  category_id :: "jsstring option"
  tags :: "jsstring list"
  notes' :: "jsstring option"
  strength_score :: int
  last_used :: "jsstring option"
  created_at :: jsstring
  updated_at :: jsstring

text \<open>\<open>Omit<PasswordEntry, 'id' | 'created_at' | 'updated_at'>\<close>\<close>

record EntryInput =
  in_title :: jsstring
  in_username :: "jsstring option"
  in_password :: jsstring
  in_url :: "jsstring option"
  in_category_id :: "jsstring option"
  in_tags :: "jsstring list"
  in_notes :: "jsstring option"
  in_strength_score :: int
  in_last_used :: "jsstring option"

text \<open>\<open>Partial<PasswordEntry>\<close>: every property may be absent.\<close>

record EntryPatch =
  p_id :: "jsstring option"
  p_title :: "jsstring option"
  p_username :: "jsstring option option"
  p_password :: "jsstring option"
  p_url :: "jsstring option option"
  p_category_id :: "jsstring option option"
  p_tags :: "jsstring list option"
  p_notes :: "jsstring option option"
  p_strength_score :: "int option"
  p_last_used :: "jsstring option option"
  p_created_at :: "jsstring option"
  p_updated_at :: "jsstring option"

record Category =
  cat_id :: jsstring
  cat_name :: jsstring
  cat_icon :: jsstring
  cat_color :: jsstring

text \<open>\<open>{ ...entry, id: i, created_at: c, updated_at: u }\<close>\<close>

definition new_entry :: "EntryInput \<Rightarrow> jsstring \<Rightarrow> jsstring \<Rightarrow> jsstring \<Rightarrow> PasswordEntry" where
  "new_entry entry i c u =
     \<lparr>id' = i, title = in_title entry, username = in_username entry,
      password = in_password entry, url = in_url entry, category_id = in_category_id entry,
      tags = in_tags entry, notes' = in_notes entry, strength_score = in_strength_score entry,
      last_used = in_last_used entry, created_at = c, updated_at = u\<rparr>"

text \<open>\<open>{ ...e, ...entry }\<close>: the properties present in the patch replace those of \<open>e\<close>.\<close>

definition spread_patch :: "PasswordEntry \<Rightarrow> EntryPatch \<Rightarrow> PasswordEntry" where
  "spread_patch e entry =
     \<lparr>id' = (case p_id entry of None \<Rightarrow> id' e | Some v \<Rightarrow> v),
      title = (case p_title entry of None \<Rightarrow> title e | Some v \<Rightarrow> v),
      username = (case p_username entry of None \<Rightarrow> username e | Some v \<Rightarrow> v),
      password = (case p_password entry of None \<Rightarrow> password e | Some v \<Rightarrow> v),
      url = (case p_url entry of None \<Rightarrow> url e | Some v \<Rightarrow> v),
      category_id = (case p_category_id entry of None \<Rightarrow> category_id e | Some v \<Rightarrow> v),
      tags = (case p_tags entry of None \<Rightarrow> tags e | Some v \<Rightarrow> v),
      notes' = (case p_notes entry of None \<Rightarrow> notes' e | Some v \<Rightarrow> v),
      strength_score = (case p_strength_score entry of None \<Rightarrow> strength_score e | Some v \<Rightarrow> v),
      last_used = (case p_last_used entry of None \<Rightarrow> last_used e | Some v \<Rightarrow> v),
      created_at = (case p_created_at entry of None \<Rightarrow> created_at e | Some v \<Rightarrow> v),
      updated_at = (case p_updated_at entry of None \<Rightarrow> updated_at e | Some v \<Rightarrow> v)\<rparr>"

text \<open>
  \<open>JSON.stringify\<close> and \<open>JSON.parse\<close> on entry lists and category lists, taken as a
  parameter; \<open>None\<close> stands for the \<open>SyntaxError\<close> of \<open>JSON.parse\<close>.
\<close>

record json =
  stringify_entries :: "PasswordEntry list \<Rightarrow> jsstring"
  parse_entries :: "jsstring \<Rightarrow> PasswordEntry list option"
  stringify_categories :: "Category list \<Rightarrow> jsstring"
  parse_categories :: "jsstring \<Rightarrow> Category list option"

section \<open>\<open>LocalStorageService\<close>: the encrypted entry blob\<close>

text \<open>
  The body of the \<open>try\<close> block of \<open>getEntries\<close>. \<open>!encrypted\<close> holds for a missing item
  and for the empty string.
\<close>

definition getEntries_try :: "'k webcrypto \<Rightarrow> json \<Rightarrow> jsstring \<Rightarrow> jsstring \<Rightarrow> error + PasswordEntry list" where
  "getEntries_try wc js encrypted masterPassword =
     (case decrypt wc encrypted masterPassword of
        Inl e \<Rightarrow> Inl e
      | Inr decrypted \<Rightarrow>
          (case parse_entries js decrypted of
             None \<Rightarrow> Inl SyntaxError
           | Some es \<Rightarrow> Inr es))"

definition LocalStorageService_getEntries ::
  "'k webcrypto \<Rightarrow> json \<Rightarrow> jsstring \<Rightarrow> 'a world_scheme \<Rightarrow> error + PasswordEntry list" where
  "LocalStorageService_getEntries wc js masterPassword w =
     (case localStorage w ENTRIES_KEY of
        None \<Rightarrow> Inr []
      | Some encrypted \<Rightarrow>
          if encrypted = [] then Inr []
          else (case getEntries_try wc js encrypted masterPassword of
                  Inl e \<Rightarrow> Inl InvalidMasterPassword
                | Inr es \<Rightarrow> Inr es))"

definition LocalStorageService_saveEntries ::
  "'k webcrypto \<Rightarrow> json \<Rightarrow> PasswordEntry list \<Rightarrow> jsstring \<Rightarrow> 'a world_scheme
     \<Rightarrow> (error + unit) \<times> 'a world_scheme" where
  "LocalStorageService_saveEntries wc js entries masterPassword w =
     (let json = stringify_entries js entries;
          (encrypted, r) = encrypt wc json masterPassword (random_bytes w)
      in case encrypted of
           Inl e \<Rightarrow> (Inl e, w\<lparr>random_bytes := r\<rparr>)
         | Inr token \<Rightarrow>
             (Inr (), w\<lparr>random_bytes := r,
                        localStorage := (localStorage w)(ENTRIES_KEY \<mapsto> token)\<rparr>))"

definition defaultCategories :: "Category list" where
  "defaultCategories =
     [\<lparr>cat_id = of_ascii ''1'', cat_name = of_ascii ''Social Media'',
       cat_icon = of_ascii ''share-2'', cat_color = of_ascii ''#3B82F6''\<rparr>,
      \<lparr>cat_id = of_ascii ''2'', cat_name = of_ascii ''Banking'',
       cat_icon = of_ascii ''landmark'', cat_color = of_ascii ''#059669''\<rparr>,
      \<lparr>cat_id = of_ascii ''3'', cat_name = of_ascii ''Work'',
       cat_icon = of_ascii ''briefcase'', cat_color = of_ascii ''#6B7280''\<rparr>,
      \<lparr>cat_id = of_ascii ''4'', cat_name = of_ascii ''Personal'',
       cat_icon = of_ascii ''user'', cat_color = of_ascii ''#8B5CF6''\<rparr>,
      \<lparr>cat_id = of_ascii ''5'', cat_name = of_ascii ''Shopping'',
       cat_icon = of_ascii ''shopping-cart'', cat_color = of_ascii ''#F97316''\<rparr>]"

definition LocalStorageService_saveCategories :: "json \<Rightarrow> Category list \<Rightarrow> 'a world_scheme \<Rightarrow> 'a world_scheme" where
  "LocalStorageService_saveCategories js cats w =
     w\<lparr>localStorage := (localStorage w)(CATEGORIES_KEY \<mapsto> stringify_categories js cats)\<rparr>"

definition LocalStorageService_getCategories ::
  "json \<Rightarrow> 'a world_scheme \<Rightarrow> (error + Category list) \<times> 'a world_scheme" where
  "LocalStorageService_getCategories js w =
     (let stored = localStorage w CATEGORIES_KEY
      in if \<not> truthy stored
         then (Inr defaultCategories, LocalStorageService_saveCategories js defaultCategories w)
         else (case Option.bind stored (parse_categories js) of
                 None \<Rightarrow> (Inl SyntaxError, w)
               | Some cats \<Rightarrow> (Inr cats, w)))"

section \<open>\<open>VaultDataSource\<close> and \<open>LocalDataSource\<close>\<close>

text \<open>
  The interface is a record of its five methods; an object of a class that implements
  it is a value of the record. \<open>SupabaseDataSource\<close> talks to a remote database and is
  not modelled: its objects are arbitrary values of the record type.
\<close>

record 'a VaultDataSource =
  loadEntries :: "'a world_scheme \<Rightarrow> (error + PasswordEntry list) \<times> 'a world_scheme"
  loadCategories :: "'a world_scheme \<Rightarrow> (error + Category list) \<times> 'a world_scheme"
  addEntry :: "EntryInput \<Rightarrow> jsstring option \<Rightarrow> 'a world_scheme
                 \<Rightarrow> (error + PasswordEntry) \<times> 'a world_scheme"
  updateEntry :: "jsstring \<Rightarrow> EntryPatch \<Rightarrow> 'a world_scheme \<Rightarrow> (error + unit) \<times> 'a world_scheme"
  deleteEntry :: "jsstring \<Rightarrow> 'a world_scheme \<Rightarrow> (error + unit) \<times> 'a world_scheme"

text \<open>
  \<open>{ ...entry, id: crypto.randomUUID(), created_at: new Date().toISOString(),
  updated_at: new Date().toISOString() }\<close>: the three calls run in this order.
\<close>

definition make_newEntry :: "EntryInput \<Rightarrow> 'a world_scheme \<Rightarrow> PasswordEntry \<times> 'a world_scheme" where
  "make_newEntry entry w =
     (let (i, w1) = randomUUID w;
          (c, w2) = now_ISOString w1;
          (u, w3) = now_ISOString w2
      in (new_entry entry i c u, w3))"

text \<open>
  \<open>existing.map((e) => (e.id === id ? { ...e, ...entry, updated_at: new Date().toISOString() } : e))\<close>:
  the clock is read once for every entry that matches.
\<close>

fun map_update :: "jsstring \<Rightarrow> EntryPatch \<Rightarrow> PasswordEntry list \<Rightarrow> 'a world_scheme
                     \<Rightarrow> PasswordEntry list \<times> 'a world_scheme" where
  "map_update i entry [] w = ([], w)"
| "map_update i entry (e # es) w =
     (if id' e = i then
        (let (u, w1) = now_ISOString w;
             (es', w2) = map_update i entry es w1
         in ((spread_patch e entry)\<lparr>updated_at := u\<rparr> # es', w2))
      else (let (es', w2) = map_update i entry es w in (e # es', w2)))"

definition LocalDataSource_loadEntries ::
  "'k webcrypto \<Rightarrow> json \<Rightarrow> jsstring \<Rightarrow> 'a world_scheme \<Rightarrow> (error + PasswordEntry list) \<times> 'a world_scheme" where
  "LocalDataSource_loadEntries wc js masterPassword w =
     (LocalStorageService_getEntries wc js masterPassword w, w)"

definition LocalDataSource_loadCategories ::
  "json \<Rightarrow> 'a world_scheme \<Rightarrow> (error + Category list) \<times> 'a world_scheme" where
  "LocalDataSource_loadCategories js w = LocalStorageService_getCategories js w"

definition LocalDataSource_addEntry ::
  "'k webcrypto \<Rightarrow> json \<Rightarrow> jsstring \<Rightarrow> EntryInput \<Rightarrow> 'a world_scheme
     \<Rightarrow> (error + PasswordEntry) \<times> 'a world_scheme" where
  "LocalDataSource_addEntry wc js masterPassword entry w =
     (let (newEntry, w1) = make_newEntry entry w
      in case LocalDataSource_loadEntries wc js masterPassword w1 of
           (Inl e, w2) \<Rightarrow> (Inl e, w2)
         | (Inr existing, w2) \<Rightarrow>
             (case LocalStorageService_saveEntries wc js (newEntry # existing) masterPassword w2 of
                (Inl e, w3) \<Rightarrow> (Inl e, w3)
              | (Inr u, w3) \<Rightarrow> (Inr newEntry, w3)))"

definition LocalDataSource_updateEntry ::
  "'k webcrypto \<Rightarrow> json \<Rightarrow> jsstring \<Rightarrow> jsstring \<Rightarrow> EntryPatch \<Rightarrow> 'a world_scheme
     \<Rightarrow> (error + unit) \<times> 'a world_scheme" where
  "LocalDataSource_updateEntry wc js masterPassword i entry w =
     (case LocalDataSource_loadEntries wc js masterPassword w of
        (Inl e, w1) \<Rightarrow> (Inl e, w1)
      | (Inr existing, w1) \<Rightarrow>
          (let (updated, w2) = map_update i entry existing w1
           in LocalStorageService_saveEntries wc js updated masterPassword w2))"

definition LocalDataSource_deleteEntry ::
  "'k webcrypto \<Rightarrow> json \<Rightarrow> jsstring \<Rightarrow> jsstring \<Rightarrow> 'a world_scheme
     \<Rightarrow> (error + unit) \<times> 'a world_scheme" where
  "LocalDataSource_deleteEntry wc js masterPassword i w =
     (case LocalDataSource_loadEntries wc js masterPassword w of
        (Inl e, w1) \<Rightarrow> (Inl e, w1)
      | (Inr existing, w1) \<Rightarrow>
          (let updated = filter (\<lambda>e. id' e \<noteq> i) existing
           in LocalStorageService_saveEntries wc js updated masterPassword w1))"

text \<open>\<open>new LocalDataSource(masterPassword)\<close>\<close>

definition LocalDataSource :: "'k webcrypto \<Rightarrow> json \<Rightarrow> jsstring \<Rightarrow> 'a VaultDataSource" where
  "LocalDataSource wc js masterPassword =
     \<lparr>loadEntries = LocalDataSource_loadEntries wc js masterPassword,
      loadCategories = LocalDataSource_loadCategories js,
      addEntry = (\<lambda>entry userId. LocalDataSource_addEntry wc js masterPassword entry),
      updateEntry = LocalDataSource_updateEntry wc js masterPassword,
      deleteEntry = LocalDataSource_deleteEntry wc js masterPassword\<rparr>"

section \<open>\<open>VaultProvider\<close> (\<open>VaultContext.tsx\<close>)\<close>

text \<open>
  The state held by the provider, and what \<open>useAuth\<close> gives it: the signed-in user
  (its id) and whether the session is a guest session. The gate of the vault is the
  \<open>masterPassword\<close> state: \<open>null\<close> until a master password has been accepted.
\<close>

record auth =
  user :: "jsstring option"
  isGuest :: bool

record 'a vault_state =
  entries :: "PasswordEntry list"
  categories :: "Category list"
  loading :: bool
  error' :: "error option"
  masterPassword :: "jsstring option"
  dataSource :: "'a VaultDataSource option"

definition loadLocalEntries ::
  "'k webcrypto \<Rightarrow> json \<Rightarrow> jsstring \<Rightarrow> 'a vault_state \<Rightarrow> 'a world_scheme
     \<Rightarrow> 'a vault_state \<times> 'a world_scheme" where
  "loadLocalEntries wc js pw vs w =
     (case LocalStorageService_getEntries wc js pw w of
        Inl e \<Rightarrow> (vs\<lparr>error' := Some e, loading := False\<rparr>, w)
      | Inr localEntries \<Rightarrow>
          (case LocalStorageService_getCategories js w of
             (Inl e, w1) \<Rightarrow> (vs\<lparr>entries := localEntries, error' := Some e, loading := False\<rparr>, w1)
           | (Inr localCategories, w1) \<Rightarrow>
               (vs\<lparr>entries := localEntries, categories := localCategories, loading := False\<rparr>, w1)))"

definition loadFromDataSource ::
  "'a VaultDataSource \<Rightarrow> 'a vault_state \<Rightarrow> 'a world_scheme \<Rightarrow> 'a vault_state \<times> 'a world_scheme" where
  "loadFromDataSource source vs w =
     (case loadEntries source w of
        (Inl e, w1) \<Rightarrow> (vs\<lparr>error' := Some e, loading := False\<rparr>, snd (loadCategories source w1))
      | (Inr e, w1) \<Rightarrow>
          (case loadCategories source w1 of
             (Inl err, w2) \<Rightarrow> (vs\<lparr>error' := Some err, loading := False\<rparr>, w2)
           | (Inr c, w2) \<Rightarrow> (vs\<lparr>entries := e, categories := c, loading := False\<rparr>, w2)))"

text \<open>The \<open>else if (dataSource && user)\<close> branches, and the fall-through when neither holds.\<close>

definition addEntry_dataSource ::
  "auth \<Rightarrow> EntryInput \<Rightarrow> 'a vault_state \<Rightarrow> 'a world_scheme
     \<Rightarrow> (error + unit) \<times> 'a vault_state \<times> 'a world_scheme" where
  "addEntry_dataSource a entry vs w =
     (case (dataSource vs, user a) of
        (Some ds, Some uid) \<Rightarrow>
          (case addEntry ds entry (Some uid) w of
             (Inl e, w1) \<Rightarrow> (Inl e, vs, w1)
           | (Inr created, w1) \<Rightarrow> (Inr (), vs\<lparr>entries := created # entries vs\<rparr>, w1))
      | _ \<Rightarrow> (Inr (), vs, w))"

definition updateEntry_dataSource ::
  "auth \<Rightarrow> jsstring \<Rightarrow> EntryPatch \<Rightarrow> 'a vault_state \<Rightarrow> 'a world_scheme
     \<Rightarrow> (error + unit) \<times> 'a vault_state \<times> 'a world_scheme" where
  "updateEntry_dataSource a i entry vs w =
     (case (dataSource vs, user a) of
        (Some ds, Some uid) \<Rightarrow>
          (case updateEntry ds i entry w of
             (Inl e, w1) \<Rightarrow> (Inl e, vs, w1)
           | (Inr u, w1) \<Rightarrow>
               (Inr (), vs\<lparr>entries := map (\<lambda>e. if id' e = i then spread_patch e entry else e)
                                            (entries vs)\<rparr>, w1))
      | _ \<Rightarrow> (Inr (), vs, w))"

definition deleteEntry_dataSource ::
  "auth \<Rightarrow> jsstring \<Rightarrow> 'a vault_state \<Rightarrow> 'a world_scheme
     \<Rightarrow> (error + unit) \<times> 'a vault_state \<times> 'a world_scheme" where
  "deleteEntry_dataSource a i vs w =
     (case (dataSource vs, user a) of
        (Some ds, Some uid) \<Rightarrow>
          (case deleteEntry ds i w of
             (Inl e, w1) \<Rightarrow> (Inl e, vs, w1)
           | (Inr u, w1) \<Rightarrow> (Inr (), vs\<lparr>entries := filter (\<lambda>e. id' e \<noteq> i) (entries vs)\<rparr>, w1))
      | _ \<Rightarrow> (Inr (), vs, w))"

text \<open>
  \<open>if (isGuest && masterPassword) { ... } else if (dataSource && user) { ... }\<close>, with no
  final \<open>else\<close>. In the guest branch the entries held in memory are changed and
  written back whole; the stored blob is not read.
\<close>

definition VaultProvider_addEntry ::
  "'k webcrypto \<Rightarrow> json \<Rightarrow> auth \<Rightarrow> EntryInput \<Rightarrow> 'a vault_state \<Rightarrow> 'a world_scheme
     \<Rightarrow> (error + unit) \<times> 'a vault_state \<times> 'a world_scheme" where
  "VaultProvider_addEntry wc js a entry vs w =
     (case masterPassword vs of
        Some mp \<Rightarrow>
          if isGuest a \<and> mp \<noteq> [] then
            (let (newEntry, w1) = make_newEntry entry w;
                 updatedEntries = newEntry # entries vs
             in case LocalStorageService_saveEntries wc js updatedEntries mp w1 of
                  (Inl e, w2) \<Rightarrow> (Inl e, vs, w2)
                | (Inr u, w2) \<Rightarrow> (Inr (), vs\<lparr>entries := updatedEntries\<rparr>, w2))
          else addEntry_dataSource a entry vs w
      | None \<Rightarrow> addEntry_dataSource a entry vs w)"

definition VaultProvider_updateEntry ::
  "'k webcrypto \<Rightarrow> json \<Rightarrow> auth \<Rightarrow> jsstring \<Rightarrow> EntryPatch \<Rightarrow> 'a vault_state \<Rightarrow> 'a world_scheme
     \<Rightarrow> (error + unit) \<times> 'a vault_state \<times> 'a world_scheme" where
  "VaultProvider_updateEntry wc js a i entry vs w =
     (case masterPassword vs of
        Some mp \<Rightarrow>
          if isGuest a \<and> mp \<noteq> [] then
            (let (updatedEntries, w1) = map_update i entry (entries vs) w
             in case LocalStorageService_saveEntries wc js updatedEntries mp w1 of
                  (Inl e, w2) \<Rightarrow> (Inl e, vs, w2)
                | (Inr u, w2) \<Rightarrow> (Inr (), vs\<lparr>entries := updatedEntries\<rparr>, w2))
          else updateEntry_dataSource a i entry vs w
      | None \<Rightarrow> updateEntry_dataSource a i entry vs w)"

definition VaultProvider_deleteEntry ::
  "'k webcrypto \<Rightarrow> json \<Rightarrow> auth \<Rightarrow> jsstring \<Rightarrow> 'a vault_state \<Rightarrow> 'a world_scheme
     \<Rightarrow> (error + unit) \<times> 'a vault_state \<times> 'a world_scheme" where
  "VaultProvider_deleteEntry wc js a i vs w =
     (case masterPassword vs of
        Some mp \<Rightarrow>
          if isGuest a \<and> mp \<noteq> [] then
            (let updatedEntries = filter (\<lambda>e. id' e \<noteq> i) (entries vs)
             in case LocalStorageService_saveEntries wc js updatedEntries mp w of
                  (Inl e, w2) \<Rightarrow> (Inl e, vs, w2)
                | (Inr u, w2) \<Rightarrow> (Inr (), vs\<lparr>entries := updatedEntries\<rparr>, w2))
          else deleteEntry_dataSource a i vs w
      | None \<Rightarrow> deleteEntry_dataSource a i vs w)"

text \<open>
  \<open>if (dataSource && user && !isGuest) { ... } else if (isGuest && masterPassword) { ... }\<close>;
  both loaders catch every error themselves, so \<open>refreshEntries\<close> never throws.
\<close>

definition refreshEntries_local ::
  "'k webcrypto \<Rightarrow> json \<Rightarrow> auth \<Rightarrow> 'a vault_state \<Rightarrow> 'a world_scheme
     \<Rightarrow> 'a vault_state \<times> 'a world_scheme" where
  "refreshEntries_local wc js a vs w =
     (case masterPassword vs of
        Some mp \<Rightarrow> if isGuest a \<and> mp \<noteq> [] then loadLocalEntries wc js mp vs w else (vs, w)
      | None \<Rightarrow> (vs, w))"

definition VaultProvider_refreshEntries ::
  "'k webcrypto \<Rightarrow> json \<Rightarrow> auth \<Rightarrow> 'a vault_state \<Rightarrow> 'a world_scheme
     \<Rightarrow> 'a vault_state \<times> 'a world_scheme" where
  "VaultProvider_refreshEntries wc js a vs w =
     (case (dataSource vs, user a) of
        (Some ds, Some uid) \<Rightarrow>
          if \<not> isGuest a then loadFromDataSource ds vs w else refreshEntries_local wc js a vs w
      | _ \<Rightarrow> refreshEntries_local wc js a vs w)"

section \<open>The heuristic of the specification\<close>

text \<open>
  The strength heuristic in the words of the specification, to be compared with
  \<open>calculateStrength\<close>: length bonuses, 10 for each character class that is present,
  5 more for each class that appears at least twice, capped at 100.
\<close>

definition count_class :: "bool \<Rightarrow> (code_unit \<times> code_unit) list \<Rightarrow> jsstring \<Rightarrow> nat" where
  "count_class negated rs s = length (filter (class_matches negated rs) s)"

definition class_bonus :: "bool \<Rightarrow> (code_unit \<times> code_unit) list \<Rightarrow> jsstring \<Rightarrow> nat" where
  "class_bonus negated rs s =
     (if count_class negated rs s \<ge> 1 then 10 else 0)
   + (if count_class negated rs s \<ge> 2 then 5 else 0)"

definition heuristic_score :: "jsstring \<Rightarrow> nat" where
  "heuristic_score s =
     min 100
       ((if length s \<ge> 8 then 20 else 0) + (if length s \<ge> 12 then 15 else 0)
        + (if length s \<ge> 16 then 15 else 0)
        + class_bonus False lower_ranges s + class_bonus False upper_ranges s
        + class_bonus False digit_ranges s + class_bonus True alnum_ranges s)"

definition heuristic_label :: "nat \<Rightarrow> string" where
  "heuristic_label n =
     (if n < 40 then ''Weak'' else if n < 60 then ''Fair''
      else if n < 80 then ''Good'' else ''Strong'')"

section \<open>Properties of the platform services and of the stored blob\<close>

text \<open>
  What the proofs below assume of AES-GCM where they need it: decryption under the
  same key and nonce returns the plaintext.
\<close>

definition aead_correct :: "'k webcrypto \<Rightarrow> bool" where
  "aead_correct wc =
     (\<forall>k iv pt. aes_gcm_decrypt wc k iv (aes_gcm_encrypt wc k iv pt) = Some pt)"




section \<open>A reference instance of the platform services\<close>

text \<open>
  To run the model on concrete inputs the platform record needs a value. The
  instance below is a transparent stand-in, not a cipher: a key is the pair of the
  encoded password, filled with zero bytes to the 64 bytes of an HMAC-SHA-256 block as
  PBKDF2 does with a shorter password, and the salt; a ciphertext is a header naming
  key and nonce followed by the plaintext; the digest is the message behind its
  length; and a call accepts 65536 arguments. It decrypts what it encrypted.
  \<open>frame\<close> writes a list so that it can be read back from the front of a longer list.
\<close>

definition frame :: "'a::zero_neq_one list \<Rightarrow> 'a list" where
  "frame xs = concat (map (\<lambda>x. [1, x]) xs) @ [0]"

fun unframe :: "'a::zero_neq_one list \<Rightarrow> ('a list \<times> 'a list) option" where
  "unframe [] = None"
| "unframe [t] = (if t = 0 then Some ([], []) else None)"
| "unframe (t # x # rest) =
     (if t = 0 then Some ([], x # rest)
      else map_option (\<lambda>(xs, r). (x # xs, r)) (unframe rest))"

definition hmac_key :: "bytes \<Rightarrow> bytes" where
  "hmac_key p = p @ replicate (64 - length p) 0"

definition ref_header :: "bytes \<times> bytes \<Rightarrow> bytes \<Rightarrow> bytes" where
  "ref_header k iv = frame (fst k) @ frame (snd k) @ frame iv"

definition ref_decrypt :: "bytes \<times> bytes \<Rightarrow> bytes \<Rightarrow> bytes \<Rightarrow> bytes option" where
  "ref_decrypt k iv c =
     (let h = ref_header k iv
      in if take (length h) c = h then Some (drop (length h) c) else None)"

definition ref_webcrypto :: "(bytes \<times> bytes) webcrypto" where
  "ref_webcrypto =
     \<lparr>pbkdf2 = (\<lambda>p s n. (hmac_key p, s)),
      aes_gcm_encrypt = (\<lambda>k iv pt. ref_header k iv @ pt),
      aes_gcm_decrypt = ref_decrypt,
      sha256 = (\<lambda>m. of_nat (length m) # m),
      max_arguments = 65536\<rparr>"

text \<open>
  The reference JSON writes every code unit as two units below 256, so that its text
  is ASCII-like whatever the strings of the entries contain.
\<close>

definition split_units :: "jsstring \<Rightarrow> jsstring" where
  "split_units s = concat (map (\<lambda>c. [of_nat (unat c div 256), of_nat (unat c mod 256)]) s)"

fun join_units :: "jsstring \<Rightarrow> jsstring" where
  "join_units (h # l # rest) = of_nat (unat h * 256 + unat l) # join_units rest"
| "join_units _ = []"

definition put_string :: "jsstring \<Rightarrow> jsstring" where
  "put_string s = frame (split_units s)"

definition get_string :: "jsstring \<Rightarrow> (jsstring \<times> jsstring) option" where
  "get_string t = map_option (\<lambda>(xs, r). (join_units xs, r)) (unframe t)"

definition put_option :: "jsstring option \<Rightarrow> jsstring" where
  "put_option v = (case v of None \<Rightarrow> [0] | Some s \<Rightarrow> 1 # put_string s)"

definition get_option :: "jsstring \<Rightarrow> (jsstring option \<times> jsstring) option" where
  "get_option t =
     (case t of [] \<Rightarrow> None
      | f # r \<Rightarrow> if f = 0 then Some (None, r)
                 else map_option (\<lambda>(s, r'). (Some s, r')) (get_string r))"

definition put_int :: "int \<Rightarrow> jsstring" where
  "put_int i = (if i < 0 then 1 else 0) # frame (replicate (nat \<bar>i\<bar>) 1)"

definition get_int :: "jsstring \<Rightarrow> (int \<times> jsstring) option" where
  "get_int t =
     (case t of [] \<Rightarrow> None
      | f # r \<Rightarrow> map_option (\<lambda>(xs, r'). (if f = 0 then int (length xs) else - int (length xs), r'))
                   (unframe r))"

fun put_items :: "('a \<Rightarrow> jsstring) \<Rightarrow> 'a list \<Rightarrow> jsstring" where
  "put_items p [] = [0]"
| "put_items p (x # xs) = 1 # p x @ put_items p xs"

text \<open>Reading a list needs a bound on the number of items: the length of the text.\<close>

fun get_items :: "nat \<Rightarrow> (jsstring \<Rightarrow> ('a \<times> jsstring) option) \<Rightarrow> jsstring
                    \<Rightarrow> ('a list \<times> jsstring) option" where
  "get_items 0 g t = None"
| "get_items (Suc n) g t =
     (case t of [] \<Rightarrow> None
      | f # r \<Rightarrow> if f = 0 then Some ([], r)
                 else (case g r of None \<Rightarrow> None
                       | Some (x, r') \<Rightarrow> map_option (\<lambda>(xs, r''). (x # xs, r'')) (get_items n g r')))"

definition put_entry :: "PasswordEntry \<Rightarrow> jsstring" where
  "put_entry e =
     put_string (id' e) @ put_string (title e) @ put_option (username e)
     @ put_string (password e) @ put_option (url e) @ put_option (category_id e)
     @ put_items put_string (tags e) @ put_option (notes' e) @ put_int (strength_score e)
     @ put_option (last_used e) @ put_string (created_at e) @ put_string (updated_at e)"

definition get_entry :: "jsstring \<Rightarrow> (PasswordEntry \<times> jsstring) option" where
  "get_entry t0 =
     Option.bind (get_string t0) (\<lambda>(i, t1).
     Option.bind (get_string t1) (\<lambda>(ti, t2).
     Option.bind (get_option t2) (\<lambda>(un, t3).
     Option.bind (get_string t3) (\<lambda>(pw, t4).
     Option.bind (get_option t4) (\<lambda>(ur, t5).
     Option.bind (get_option t5) (\<lambda>(ca, t6).
     Option.bind (get_items (length t6) get_string t6) (\<lambda>(tg, t7).
     Option.bind (get_option t7) (\<lambda>(no, t8).
     Option.bind (get_int t8) (\<lambda>(sc, t9).
     Option.bind (get_option t9) (\<lambda>(lu, t10).
     Option.bind (get_string t10) (\<lambda>(cr, t11).
     Option.bind (get_string t11) (\<lambda>(up, t12).
       Some (\<lparr>id' = i, title = ti, username = un, password = pw, url = ur,
              category_id = ca, tags = tg, notes' = no, strength_score = sc,
              last_used = lu, created_at = cr, updated_at = up\<rparr>, t12)))))))))))))"

definition ref_parse_entries :: "jsstring \<Rightarrow> PasswordEntry list option" where
  "ref_parse_entries t =
     (case get_items (length t) get_entry t of
        Some (es, []) \<Rightarrow> Some es
      | _ \<Rightarrow> None)"

definition ref_json :: json where
  "ref_json =
     \<lparr>stringify_entries = put_items put_entry,
      parse_entries = ref_parse_entries,
      stringify_categories = (\<lambda>cs. []),
      parse_categories = (\<lambda>t. None)\<rparr>"

text \<open>An environment with an empty \<open>localStorage\<close> and a generator that counts.\<close>

definition ref_world :: world where
  "ref_world =
     \<lparr>localStorage = Map.empty,
      random_bytes = (\<lambda>i. of_nat i),
      random_uuids = (\<lambda>i. of_ascii ''00000000-0000-4000-8000-000000000000''),
      clock = (\<lambda>i. of_ascii ''2025-01-01T00:00:00.000Z'')\<rparr>"


text \<open>A platform whose engine accepts no more than 100 arguments in a call.\<close>

definition small_engine :: "(bytes \<times> bytes) webcrypto" where
  "small_engine = ref_webcrypto\<lparr>max_arguments := 100\<rparr>"

text \<open>A generator that delivers the same byte for ever.\<close>

definition constant_generator :: entropy where
  "constant_generator = (\<lambda>i. 0)"

definition gmail_input :: EntryInput where
  "gmail_input =
     \<lparr>in_title = of_ascii ''Gmail'', in_username = None, in_password = of_ascii ''hunter2'',
      in_url = None, in_category_id = None, in_tags = [], in_notes = None,
      in_strength_score = 25, in_last_used = None\<rparr>"

text \<open>A guest session of the provider before any master password was entered.\<close>

definition guest :: auth where
  "guest = \<lparr>user = None, isGuest = True\<rparr>"

definition locked_state :: "unit vault_state" where
  "locked_state =
     \<lparr>entries = [], categories = [], loading = True, error' = None,
      masterPassword = None, dataSource = None\<rparr>"

text \<open>\<open>{ title: 'Mail' }\<close> as a \<open>Partial<PasswordEntry>\<close>.\<close>

definition title_patch :: EntryPatch where
  "title_patch =
     \<lparr>p_id = None, p_title = Some (of_ascii ''Mail''), p_username = None, p_password = None,
      p_url = None, p_category_id = None, p_tags = None, p_notes = None,
      p_strength_score = None, p_last_used = None, p_created_at = None, p_updated_at = None\<rparr>"

section \<open>Facts about the platform functions\<close>

subsection \<open>Base64\<close>

lemma unat_byte_less: "unat (b :: byte) < 256"
  using unsigned_less[of b, where 'a=nat] by simp

lemma b64_table: "list_all (\<lambda>n. b64_index (b64_char n) = Some n) [0..<64]"
  by code_simp

lemma b64_index_char: "n < 64 \<Longrightarrow> b64_index (b64_char n) = Some n"
  using b64_table by (simp add: list_all_iff)

lemma b64_char_plain:
  assumes "n < 64"
  shows "b64_char n \<noteq> 0x3D" and "\<not> ascii_whitespace (b64_char n)"
proof -
  have "b64_index (b64_char n) = Some n" using assms by (rule b64_index_char)
  moreover have "b64_index 0x3D = None" "b64_index 0x09 = None" "b64_index 0x0A = None"
    "b64_index 0x0C = None" "b64_index 0x0D = None" "b64_index 0x20 = None"
    by (simp_all add: b64_index_def)
  ultimately show "b64_char n \<noteq> 0x3D" and "\<not> ascii_whitespace (b64_char n)"
    by (auto simp: ascii_whitespace_def)
qed

lemma byte_join1:
  fixes a b :: byte
  shows "(of_nat (unat a div 4 * 4 + (unat a mod 4 * 16 + unat b div 16) div 16) :: byte) = a"
proof -
  have "unat b < 256" by (rule unat_byte_less)
  then have "(unat a mod 4 * 16 + unat b div 16) div 16 = unat a mod 4" by simp
  then show ?thesis by simp
qed

lemma byte_join2:
  fixes a b c :: byte
  shows "(of_nat ((unat a mod 4 * 16 + unat b div 16) mod 16 * 16
            + (unat b mod 16 * 4 + unat c div 64) div 4) :: byte) = b"
proof -
  have "unat b < 256" "unat c < 256" by (rule unat_byte_less)+
  then have "(unat a mod 4 * 16 + unat b div 16) mod 16 = unat b div 16"
    and "(unat b mod 16 * 4 + unat c div 64) div 4 = unat b mod 16" by simp_all
  then show ?thesis by simp
qed

lemma byte_join3:
  fixes b c :: byte
  shows "(of_nat ((unat b mod 16 * 4 + unat c div 64) mod 4 * 64 + unat c mod 64) :: byte) = c"
proof -
  have "unat c < 256" by (rule unat_byte_less)
  then have "(unat b mod 16 * 4 + unat c div 64) mod 4 = unat c div 64" by simp
  then show ?thesis by simp
qed


lemma sextet_bounds:
  fixes a b c :: byte
  shows "unat a div 4 < 64" "unat a mod 4 * 16 + unat b div 16 < 64"
    "unat b mod 16 * 4 + unat c div 64 < 64" "unat c mod 64 < 64"
    "unat a mod 4 * 16 < 64" "unat b mod 16 * 4 < 64"
proof -
  have "unat a < 256" "unat b < 256" "unat c < 256" by (rule unat_byte_less)+
  then show "unat a div 4 < 64" "unat a mod 4 * 16 + unat b div 16 < 64"
    "unat b mod 16 * 4 + unat c div 64 < 64" "unat c mod 64 < 64"
    "unat a mod 4 * 16 < 64" "unat b mod 16 * 4 < 64"
    by simp_all
qed

lemma sextets_of_bound: "x \<in> set (sextets_of bs) \<Longrightarrow> x < 64"
proof (induction bs arbitrary: x rule: sextets_of.induct)
  case 1
  then show ?case by simp
next
  case (2 a)
  then show ?case by (auto simp: sextet_bounds)
next
  case (3 a b)
  then show ?case by (auto simp: sextet_bounds)
next
  case (4 a b c rest)
  then show ?case by (auto simp: sextet_bounds)
qed

lemma bytes_of_sextets_of: "bytes_of_sextets (sextets_of bs) = bs"
proof (induction bs rule: sextets_of.induct)
  case 1
  show ?case by simp
next
  case (2 a)
  show ?case using byte_join1[of a 0] by simp
next
  case (3 a b)
  show ?case using byte_join1[of a b] byte_join2[of a b 0] by simp
next
  case (4 a b c rest)
  then show ?case by (simp only: sextets_of.simps append_Cons append_Nil bytes_of_sextets.simps
        byte_join1 byte_join2 byte_join3)
qed

lemma length_sextets_of:
  "length (sextets_of bs) mod 4 = (if length bs mod 3 = 0 then 0 else length bs mod 3 + 1)"
proof (induction bs rule: sextets_of.induct)
  case (4 a b c rest)
  have "length (sextets_of (a # b # c # rest)) = length (sextets_of rest) + 4" by simp
  moreover have "length (a # b # c # rest) = length rest + 3" by simp
  ultimately show ?case using 4 by (simp only: mod_add_self2)
qed simp_all

lemma base64_length: "length (base64_encode bs) mod 4 = 0"
proof -
  have "length bs mod 3 = 0 \<or> length bs mod 3 = 1 \<or> length bs mod 3 = 2" by arith
  then show ?thesis
    using length_sextets_of[of bs] unfolding base64_encode_def
    by (auto simp: mod_Suc)
qed


lemma those_b64_index:
  "(\<And>x. x \<in> set xs \<Longrightarrow> x < 64) \<Longrightarrow> those (map b64_index (map b64_char xs)) = Some xs"
  by (induction xs) (simp_all add: b64_index_char)

lemma strip_equals_plain: "(\<And>c. c \<in> set cs \<Longrightarrow> c \<noteq> 0x3D) \<Longrightarrow> strip_equals cs = cs"
  by (cases cs rule: rev_cases) (auto simp: strip_equals_def)

lemma strip_equals_padding:
  assumes "\<And>c. c \<in> set cs \<Longrightarrow> c \<noteq> 0x3D" and "k \<le> 2"
  shows "strip_equals (strip_equals (cs @ replicate k 0x3D)) = cs"
proof -
  from \<open>k \<le> 2\<close> consider "k = 0" | "k = 1" | "k = 2" by arith
  then show ?thesis
  proof cases
    case 1
    then show ?thesis using assms(1) by (simp add: strip_equals_plain)
  next
    case 2
    then have "strip_equals (cs @ replicate k 0x3D) = cs" by (simp add: strip_equals_def)
    then show ?thesis using assms(1) by (simp add: strip_equals_plain)
  next
    case 3
    then have "cs @ replicate k 0x3D = (cs @ [0x3D]) @ [0x3D]" by (simp add: numeral_2_eq_2)
    then have "strip_equals (cs @ replicate k 0x3D) = cs @ [0x3D]"
      by (simp only: strip_equals_def butlast_snoc last_snoc) simp
    then show ?thesis by (simp add: strip_equals_def)
  qed
qed

lemma atob_base64_encode: "atob (base64_encode bs) = Inr (binary_string bs)"
proof -
  define cs where "cs = map b64_char (sextets_of bs)"
  define k where "k = (3 - length bs mod 3) mod 3"
  have enc: "base64_encode bs = cs @ replicate k 0x3D"
    by (simp add: base64_encode_def cs_def k_def)
  have plain: "c \<noteq> 0x3D" "\<not> ascii_whitespace c" if "c \<in> set cs" for c
    using that b64_char_plain sextets_of_bound by (auto simp: cs_def)
  have pad_ws: "\<not> ascii_whitespace (0x3D :: code_unit)" by (simp add: ascii_whitespace_def)
  have filt: "filter (\<lambda>c. \<not> ascii_whitespace c) (base64_encode bs) = base64_encode bs"
    unfolding enc using plain(2) pad_ws by (auto simp: filter_id_conv)
  have k2: "k \<le> 2" unfolding k_def by arith
  have strip: "strip_equals (strip_equals (base64_encode bs)) = cs"
    unfolding enc using plain(1) k2 by (rule strip_equals_padding)
  have len: "length cs mod 4 \<noteq> 1"
    using length_sextets_of[of bs] by (auto simp: cs_def split: if_splits)
  have idx: "those (map b64_index cs) = Some (sextets_of bs)"
    unfolding cs_def using sextets_of_bound by (rule those_b64_index)
  show ?thesis
    unfolding atob_def filt Let_def
    using len by (simp add: base64_length strip idx bytes_of_sextets_of)
qed

lemma ucast_byte_unit: "(ucast (ucast (b :: byte) :: code_unit) :: byte) = b"
  by (simp add: ucast_up_ucast_id is_up)

lemma Uint8Array_from_binary_string: "Uint8Array_from (binary_string bs) = bs"
  by (simp add: Uint8Array_from_def binary_string_def ucast_byte_unit map_idI)

lemma unat_ucast_byte: "unat (ucast (b :: byte) :: code_unit) = unat b"
proof -
  have "unat b < 2 ^ 16" using unat_byte_less[of b] by simp
  then show ?thesis by (simp add: unsigned_ucast_eq take_bit_nat_eq_self)
qed

lemma btoa_binary_string: "btoa (binary_string bs) = Inr (base64_encode bs)"
proof -
  have "\<not> 0xFF < unat (ucast b :: code_unit)" for b :: byte
    using unat_byte_less[of b] by (simp add: unat_ucast_byte)
  then have "\<not> list_ex (\<lambda>c. 0xFF < unat c) (binary_string bs)"
    by (simp add: list_ex_iff binary_string_def)
  moreover have "map ucast (binary_string bs) = bs"
    by (simp add: binary_string_def ucast_byte_unit map_idI)
  ultimately show ?thesis by (simp add: btoa_def)
qed

lemma base64_encode_inject: "base64_encode xs = base64_encode ys \<Longrightarrow> xs = ys"
proof -
  assume "base64_encode xs = base64_encode ys"
  then have "atob (base64_encode xs) = atob (base64_encode ys)" by simp
  then have "binary_string xs = binary_string ys" by (simp add: atob_base64_encode)
  then have "Uint8Array_from (binary_string xs) = Uint8Array_from (binary_string ys)"
    by simp
  then show "xs = ys" by (simp add: Uint8Array_from_binary_string)
qed

subsection \<open>Evaluating the text encoder on concrete strings\<close>

lemmas text_eval = TextEncoder_encode_def of_ascii_def high_surrogate_def low_surrogate_def
  utf8_of_scalar_def

subsection \<open>UTF-8: decoding what the encoder wrote\<close>



lemma unat_of_nat_byte: "n < 256 \<Longrightarrow> unat (of_nat n :: byte) = n"
  by (simp add: unat_of_nat)

lemma decoder_ascii:
  "unat b \<le> 0x7F \<Longrightarrow> utf8_decoder utf8_init (b # bs) = unat b # utf8_decoder utf8_init bs"
  by (simp add: utf8_init_def)

lemma decoder_two:
  assumes "0xC2 \<le> unat b1" "unat b1 \<le> 0xDF" "0x80 \<le> unat b2" "unat b2 \<le> 0xBF"
  shows "utf8_decoder utf8_init (b1 # b2 # bs) =
           (unat b1 mod 32 * 64 + unat b2 mod 64) # utf8_decoder utf8_init bs"
  using assms by (simp add: utf8_init_def)

lemma decoder_three:
  assumes "0xE0 \<le> unat b1" "unat b1 \<le> 0xEF"
    and "(if unat b1 = 0xE0 then 0xA0 else 0x80) \<le> unat b2"
    and "unat b2 \<le> (if unat b1 = 0xED then 0x9F else 0xBF)"
    and "0x80 \<le> unat b3" "unat b3 \<le> 0xBF"
  shows "utf8_decoder utf8_init (b1 # b2 # b3 # bs) =
           ((unat b1 mod 16 * 64 + unat b2 mod 64) * 64 + unat b3 mod 64)
           # utf8_decoder utf8_init bs"
  using assms by (simp add: utf8_init_def split: if_splits)

lemma decoder_four:
  assumes "0xF0 \<le> unat b1" "unat b1 \<le> 0xF4"
    and "(if unat b1 = 0xF0 then 0x90 else 0x80) \<le> unat b2"
    and "unat b2 \<le> (if unat b1 = 0xF4 then 0x8F else 0xBF)"
    and "0x80 \<le> unat b3" "unat b3 \<le> 0xBF" "0x80 \<le> unat b4" "unat b4 \<le> 0xBF"
  shows "utf8_decoder utf8_init (b1 # b2 # b3 # b4 # bs) =
           (((unat b1 mod 8 * 64 + unat b2 mod 64) * 64 + unat b3 mod 64) * 64 + unat b4 mod 64)
           # utf8_decoder utf8_init bs"
  using assms by (simp add: utf8_init_def split: if_splits)



lemma lead_mod:
  fixes x :: nat
  shows "x < 32 \<Longrightarrow> (192 + x) mod 32 = x"
    and "x < 16 \<Longrightarrow> (224 + x) mod 16 = x"
    and "x < 8 \<Longrightarrow> (240 + x) mod 8 = x"
    and "(128 + x mod 64) mod 64 = x mod 64"
proof -
  have "(32 * 6 + x) mod 32 = x mod 32" "(16 * 14 + x) mod 16 = x mod 16"
    "(8 * 30 + x) mod 8 = x mod 8" "(64 * 2 + x mod 64) mod 64 = x mod 64 mod 64"
    by (rule mod_mult_self4)+
  then have "(192 + x) mod 32 = x mod 32" "(224 + x) mod 16 = x mod 16"
    "(240 + x) mod 8 = x mod 8" "(128 + x mod 64) mod 64 = x mod 64"
    by simp_all
  then show "x < 32 \<Longrightarrow> (192 + x) mod 32 = x" "x < 16 \<Longrightarrow> (224 + x) mod 16 = x"
    "x < 8 \<Longrightarrow> (240 + x) mod 8 = x" "(128 + x mod 64) mod 64 = x mod 64"
    by simp_all
qed

lemma div_4096: "(cp :: nat) div 4096 = cp div 64 div 64"
  by (simp add: div_mult2_eq[symmetric])

lemma div_262144: "(cp :: nat) div 262144 = cp div 64 div 64 div 64"
  by (simp add: div_mult2_eq[symmetric])

lemma decode_one_byte:
  assumes "cp < 0x80"
  shows "utf8_decoder utf8_init (utf8_of_scalar cp @ rest) = cp # utf8_decoder utf8_init rest"
proof -
  have u: "unat (of_nat cp :: byte) = cp" using assms by (simp add: unat_of_nat_byte)
  have enc: "utf8_of_scalar cp = [of_nat cp]" using assms by (simp add: utf8_of_scalar_def)
  have "unat (of_nat cp :: byte) \<le> 0x7F" unfolding u using assms by simp
  from decoder_ascii[OF this, of rest] show ?thesis
    unfolding enc by (simp only: u append_Cons append_Nil)
qed

lemma decode_two_bytes:
  assumes "0x80 \<le> cp" "cp < 0x800"
  shows "utf8_decoder utf8_init (utf8_of_scalar cp @ rest) = cp # utf8_decoder utf8_init rest"
proof -
  define q where "q = cp div 64"
  define b1 :: byte where "b1 = of_nat (0xC0 + q)"
  define b2 :: byte where "b2 = of_nat (0x80 + cp mod 64)"
  have q: "2 \<le> q" "q < 32" unfolding q_def using assms by simp_all
  have u1: "unat b1 = 0xC0 + q" unfolding b1_def using q by (intro unat_of_nat_byte) simp
  have u2: "unat b2 = 0x80 + cp mod 64" unfolding b2_def by (intro unat_of_nat_byte) simp
  have enc: "utf8_of_scalar cp = [b1, b2]"
    using assms by (simp add: utf8_of_scalar_def b1_def b2_def q_def)
  have r: "0xC2 \<le> unat b1" "unat b1 \<le> 0xDF" "0x80 \<le> unat b2" "unat b2 \<le> 0xBF"
    unfolding u1 u2 using q by simp_all
  have "unat b1 mod 32 * 64 + unat b2 mod 64 = q * 64 + cp mod 64"
    unfolding u1 u2 using q by (simp only: lead_mod)
  then have v: "unat b1 mod 32 * 64 + unat b2 mod 64 = cp"
    by (simp add: q_def)
  show ?thesis
    unfolding enc using decoder_two[OF r, of rest] by (simp only: v append_Cons append_Nil)
qed

lemma decode_three_bytes:
  assumes "0x800 \<le> cp" "cp < 0x10000" "scalar_value cp"
  shows "utf8_decoder utf8_init (utf8_of_scalar cp @ rest) = cp # utf8_decoder utf8_init rest"
proof -
  define q where "q = cp div 64"
  define p where "p = q div 64"
  define b1 :: byte where "b1 = of_nat (0xE0 + p)"
  define b2 :: byte where "b2 = of_nat (0x80 + q mod 64)"
  define b3 :: byte where "b3 = of_nat (0x80 + cp mod 64)"
  have q: "32 \<le> q" "q < 1024" unfolding q_def using assms by simp_all
  have p: "p < 16" unfolding p_def using q by simp
  have sv: "cp < 0xD800 \<or> 0xE000 \<le> cp" using assms(3) by (auto simp: scalar_value_def)
  then have qs: "q < 864 \<or> 896 \<le> q" unfolding q_def by auto
  have u1: "unat b1 = 0xE0 + p" unfolding b1_def using p by (intro unat_of_nat_byte) simp
  have u2: "unat b2 = 0x80 + q mod 64" unfolding b2_def by (intro unat_of_nat_byte) simp
  have u3: "unat b3 = 0x80 + cp mod 64" unfolding b3_def by (intro unat_of_nat_byte) simp
  have enc: "utf8_of_scalar cp = [b1, b2, b3]"
    using assms by (simp add: utf8_of_scalar_def b1_def b2_def b3_def q_def p_def div_4096)
  have lo: "32 \<le> q mod 64" if "p = 0"
  proof -
    from that have "q < 64" unfolding p_def by simp
    with q show ?thesis by simp
  qed
  have hi: "q mod 64 < 32" if "p = 13"
  proof -
    from that have "832 \<le> q" "q < 896" unfolding p_def by arith+
    with qs have "q < 864" by simp
    with \<open>832 \<le> q\<close> show ?thesis by arith
  qed
  have r: "0xE0 \<le> unat b1" "unat b1 \<le> 0xEF"
    "(if unat b1 = 0xE0 then 0xA0 else 0x80) \<le> unat b2"
    "unat b2 \<le> (if unat b1 = 0xED then 0x9F else 0xBF)"
    "0x80 \<le> unat b3" "unat b3 \<le> 0xBF"
    unfolding u1 u2 u3 using p lo hi by auto
  have "(unat b1 mod 16 * 64 + unat b2 mod 64) * 64 + unat b3 mod 64
          = (p * 64 + q mod 64) * 64 + cp mod 64"
    unfolding u1 u2 u3 using p by (simp only: lead_mod)
  also have "\<dots> = q * 64 + cp mod 64" by (simp add: p_def)
  also have "\<dots> = cp" by (simp add: q_def)
  finally have v: "(unat b1 mod 16 * 64 + unat b2 mod 64) * 64 + unat b3 mod 64 = cp" .
  show ?thesis
    unfolding enc using decoder_three[OF r, of rest] by (simp only: v append_Cons append_Nil)
qed

lemma decode_four_bytes:
  assumes "0x10000 \<le> cp" "cp < 0x110000"
  shows "utf8_decoder utf8_init (utf8_of_scalar cp @ rest) = cp # utf8_decoder utf8_init rest"
proof -
  define q where "q = cp div 64"
  define p where "p = q div 64"
  define t where "t = p div 64"
  define b1 :: byte where "b1 = of_nat (0xF0 + t)"
  define b2 :: byte where "b2 = of_nat (0x80 + p mod 64)"
  define b3 :: byte where "b3 = of_nat (0x80 + q mod 64)"
  define b4 :: byte where "b4 = of_nat (0x80 + cp mod 64)"
  have q: "1024 \<le> q" "q < 17408" unfolding q_def using assms by simp_all
  have p: "16 \<le> p" "p < 272" unfolding p_def using q by simp_all
  have t: "t < 5" unfolding t_def using p by simp
  have u1: "unat b1 = 0xF0 + t" unfolding b1_def using t by (intro unat_of_nat_byte) simp
  have u2: "unat b2 = 0x80 + p mod 64" unfolding b2_def by (intro unat_of_nat_byte) simp
  have u3: "unat b3 = 0x80 + q mod 64" unfolding b3_def by (intro unat_of_nat_byte) simp
  have u4: "unat b4 = 0x80 + cp mod 64" unfolding b4_def by (intro unat_of_nat_byte) simp
  have enc: "utf8_of_scalar cp = [b1, b2, b3, b4]"
    using assms
    by (simp add: utf8_of_scalar_def b1_def b2_def b3_def b4_def q_def p_def t_def
        div_4096 div_262144)
  have lo: "16 \<le> p mod 64" if "t = 0"
  proof -
    from that have "p < 64" unfolding t_def by simp
    with p show ?thesis by simp
  qed
  have hi: "p mod 64 < 16" if "t = 4"
  proof -
    from that have "256 \<le> p" unfolding t_def by arith
    with p show ?thesis by arith
  qed
  have r: "0xF0 \<le> unat b1" "unat b1 \<le> 0xF4"
    "(if unat b1 = 0xF0 then 0x90 else 0x80) \<le> unat b2"
    "unat b2 \<le> (if unat b1 = 0xF4 then 0x8F else 0xBF)"
    "0x80 \<le> unat b3" "unat b3 \<le> 0xBF" "0x80 \<le> unat b4" "unat b4 \<le> 0xBF"
    unfolding u1 u2 u3 u4 using t lo hi by auto
  have "((unat b1 mod 8 * 64 + unat b2 mod 64) * 64 + unat b3 mod 64) * 64 + unat b4 mod 64
          = ((t * 64 + p mod 64) * 64 + q mod 64) * 64 + cp mod 64"
    unfolding u1 u2 u3 u4 using t by (simp only: lead_mod)
  also have "\<dots> = (p * 64 + q mod 64) * 64 + cp mod 64" by (simp add: t_def)
  also have "\<dots> = q * 64 + cp mod 64" by (simp add: p_def)
  also have "\<dots> = cp" by (simp add: q_def)
  finally have v:
    "((unat b1 mod 8 * 64 + unat b2 mod 64) * 64 + unat b3 mod 64) * 64 + unat b4 mod 64 = cp" .
  show ?thesis
    unfolding enc using decoder_four[OF r, of rest] by (simp only: v append_Cons append_Nil)
qed

lemma decode_scalar:
  assumes "scalar_value cp"
  shows "utf8_decoder utf8_init (utf8_of_scalar cp @ rest) = cp # utf8_decoder utf8_init rest"
proof -
  from assms have "cp < 0x110000" by (auto simp: scalar_value_def)
  then consider "cp < 0x80" | "0x80 \<le> cp" "cp < 0x800" | "0x800 \<le> cp" "cp < 0x10000"
    | "0x10000 \<le> cp" "cp < 0x110000" by linarith
  then show ?thesis
    using assms by cases (simp_all only: decode_one_byte decode_two_bytes decode_three_bytes decode_four_bytes)
qed


lemma decode_scalars:
  "list_all scalar_value cps \<Longrightarrow> utf8_decoder utf8_init (concat (map utf8_of_scalar cps)) = cps"
proof (induction cps)
  case Nil
  show ?case by (simp add: utf8_init_def)
next
  case (Cons cp cps)
  then show ?case by (simp add: decode_scalar)
qed

lemma unat_unit_less: "unat (c :: code_unit) < 65536"
  using unsigned_less[of c, where 'a=nat] by simp

lemma scalar_of_unit:
  "\<not> high_surrogate c \<Longrightarrow> \<not> low_surrogate c \<Longrightarrow> scalar_value (unat c)"
  using unat_unit_less[of c] by (auto simp: high_surrogate_def low_surrogate_def scalar_value_def)

lemma scalar_of_pair:
  assumes "high_surrogate c" "low_surrogate d"
  shows "scalar_value (0x10000 + (unat c - 0xD800) * 0x400 + (unat d - 0xDC00))"
    and "0x10000 \<le> 0x10000 + (unat c - 0xD800) * 0x400 + (unat d - 0xDC00)"
proof -
  from assms have "unat c - 0xD800 < 0x400" "unat d - 0xDC00 < 0x400"
    by (auto simp: high_surrogate_def low_surrogate_def)
  then have "(unat c - 0xD800) * 0x400 + (unat d - 0xDC00) < 0x100000" by simp
  then show "scalar_value (0x10000 + (unat c - 0xD800) * 0x400 + (unat d - 0xDC00))"
    by (simp add: scalar_value_def)
  show "0x10000 \<le> 0x10000 + (unat c - 0xD800) * 0x400 + (unat d - 0xDC00)" by simp
qed

lemma scalar_replacement: "scalar_value 0xFFFD"
  by (simp add: scalar_value_def)

lemma scalars_of_utf16_valid: "list_all scalar_value (scalars_of_utf16 s)"
  by (induction s rule: scalars_of_utf16.induct)
     (simp_all add: scalar_of_unit scalar_of_pair scalar_replacement del: scalar_of_pair(2))

lemma decoder_encode: "utf8_decoder utf8_init (TextEncoder_encode s) = scalars_of_utf16 s"
  unfolding TextEncoder_encode_def by (rule decode_scalars) (rule scalars_of_utf16_valid)

lemma utf16_of_unit: "utf16_of_scalar (unat (c :: code_unit)) = [c]"
  using unat_unit_less[of c] by (simp add: utf16_of_scalar_def)

lemma utf16_of_pair:
  assumes "high_surrogate c" "low_surrogate d"
  shows "utf16_of_scalar (0x10000 + (unat c - 0xD800) * 0x400 + (unat d - 0xDC00)) = [c, d]"
proof -
  define h where "h = unat c - 0xD800"
  define l where "l = unat d - 0xDC00"
  from assms have hl: "l < 0x400" "unat c = 0xD800 + h" "unat d = 0xDC00 + l"
    by (auto simp: high_surrogate_def low_surrogate_def h_def l_def)
  have "(h * 0x400 + l) div 0x400 = h" "(h * 0x400 + l) mod 0x400 = l"
    using hl(1) by simp_all
  then have "utf16_of_scalar (0x10000 + h * 0x400 + l) = [of_nat (unat c), of_nat (unat d)]"
    unfolding hl(2,3) by (simp add: utf16_of_scalar_def add.assoc)
  then show ?thesis by (simp add: h_def l_def)
qed

lemma utf16_of_scalars:
  "wellformed_utf16 s \<Longrightarrow> concat (map utf16_of_scalar (scalars_of_utf16 s)) = s"
  by (induction s rule: scalars_of_utf16.induct)
     (simp_all add: utf16_of_unit utf16_of_pair split: if_splits)

lemma unat_bom: "unat (c :: code_unit) = 0xFEFF \<longleftrightarrow> c = 0xFEFF"
  by (simp add: word_unat_eq_iff)

lemma strip_bom_scalars:
  assumes "wellformed_utf16 s" "\<not> starts_with_bom s"
  shows "strip_bom (scalars_of_utf16 s) = scalars_of_utf16 s"
proof (cases s rule: scalars_of_utf16.cases)
  case 1
  then show ?thesis by (simp add: strip_bom_def)
next
  case (2 c)
  with assms have "c \<noteq> 0xFEFF" by (simp add: starts_with_bom_def)
  then have "unat c \<noteq> 0xFEFF" by (simp add: unat_bom)
  with 2 assms show ?thesis by (simp add: strip_bom_def)
next
  case (3 c d ds)
  with assms have "c \<noteq> 0xFEFF" by (simp add: starts_with_bom_def)
  then have ne: "unat c \<noteq> 0xFEFF" by (simp add: unat_bom)
  show ?thesis
  proof (cases "high_surrogate c")
    case True
    with 3 assms have "low_surrogate d" by simp
    with True 3 show ?thesis using scalar_of_pair(2)[of c d]
      by (simp add: strip_bom_def)
  next
    case False
    with 3 assms ne show ?thesis by (simp add: strip_bom_def)
  qed
qed

lemma TextDecoder_TextEncoder:
  assumes "wellformed_utf16 s" "\<not> starts_with_bom s"
  shows "TextDecoder_decode (TextEncoder_encode s) = s"
  unfolding TextDecoder_decode_def decoder_encode
  using assms by (simp add: strip_bom_scalars utf16_of_scalars)

lemma TextEncoder_inject:
  assumes "wellformed_utf16 s" "wellformed_utf16 t" "TextEncoder_encode s = TextEncoder_encode t"
  shows "s = t"
proof -
  from assms(3) have "scalars_of_utf16 s = scalars_of_utf16 t"
    using decoder_encode[of s] decoder_encode[of t] by simp
  then have "concat (map utf16_of_scalar (scalars_of_utf16 s))
           = concat (map utf16_of_scalar (scalars_of_utf16 t))" by simp
  with assms(1,2) show ?thesis by (simp add: utf16_of_scalars)
qed

section \<open>The reference instance decrypts what it encrypted\<close>

lemma unframe_frame: "unframe (frame xs @ r) = Some (xs, r)"
proof (induction xs)
  case Nil
  show ?case by (cases r) (simp_all add: frame_def)
next
  case (Cons x xs)
  have "frame (x # xs) @ r = 1 # x # (frame xs @ r)" by (simp add: frame_def)
  with Cons show ?case by simp
qed

lemma frame_inject:
  assumes "frame xs @ r = frame ys @ r'"
  shows "xs = ys \<and> r = r'"
proof -
  from assms have "unframe (frame xs @ r) = unframe (frame ys @ r')" by simp
  then show ?thesis by (simp add: unframe_frame)
qed

lemma ref_aead_correct: "aead_correct ref_webcrypto"
  by (simp add: aead_correct_def ref_webcrypto_def ref_decrypt_def Let_def)

lemma length_frame: "length (frame xs) = 2 * length xs + 1"
  by (induction xs) (simp_all add: frame_def)

subsection \<open>The reference JSON reads back what it wrote\<close>


























section \<open>\<open>EncryptionService\<close>: token layout and fresh draws\<close>

lemma map_shift_upt: "map (\<lambda>i. f (n + i)) [0..<m] = map f [n..<n + m]"
proof -
  have "map f [n..<n + m] = map f (map (\<lambda>i. i + n) [0..<m])"
    by (simp only: map_add_upt add.commute)
  then show ?thesis by (simp add: comp_def add.commute)
qed

lemma length_drawn_salt: "length (drawn_salt r) = 16"
  by (simp add: drawn_salt_def getRandomValues_def)

lemma length_drawn_iv: "length (drawn_iv r) = 12"
  by (simp add: drawn_iv_def getRandomValues_def)

lemma encrypt_eq:
  "encrypt wc plaintext pw r =
     (if max_arguments wc < length (combined_bytes wc plaintext pw r) then Inl RangeError
      else Inr (base64_encode (combined_bytes wc plaintext pw r)),
      snd (getRandomValues 12 (snd (getRandomValues 16 r))))"
  by (simp add: encrypt_def combined_bytes_def drawn_salt_def drawn_iv_def Let_def split_beta
      String_fromCharCode_def btoa_binary_string)

lemma encrypt_produced:
  assumes "fst (encrypt wc plaintext pw r) = Inr token"
  shows "token = base64_encode (combined_bytes wc plaintext pw r)"
    and "length (combined_bytes wc plaintext pw r) \<le> max_arguments wc"
  using assms by (auto simp: encrypt_eq split: if_splits)

lemma encrypt_fits:
  assumes "length (combined_bytes wc plaintext pw r) \<le> max_arguments wc"
  shows "fst (encrypt wc plaintext pw r) = Inr (base64_encode (combined_bytes wc plaintext pw r))"
  using assms by (simp add: encrypt_eq)

lemma encrypt_failure:
  "isl (fst (encrypt wc plaintext pw r)) \<Longrightarrow> fst (encrypt wc plaintext pw r) = Inl RangeError"
  by (simp add: encrypt_eq split: if_splits)

lemma snd_encrypt: "snd (encrypt wc plaintext pw r) = (\<lambda>i. r (28 + i))"
  by (simp add: encrypt_eq getRandomValues_def add.assoc)

lemma decrypt_try_base64:
  assumes "length salt = 16" and "length iv = 12"
  shows "decrypt_try wc (base64_encode (salt @ iv @ ct)) pw =
     (case aes_gcm_decrypt wc (deriveKey wc pw salt) iv ct of
        None \<Rightarrow> Inl OperationError
      | Some pt \<Rightarrow> Inr (TextDecoder_decode pt))"
  using assms
  by (simp add: decrypt_try_def atob_base64_encode Uint8Array_from_binary_string slice'_def Let_def)

lemma ref_combined_length:
  "length (combined_bytes ref_webcrypto plaintext pw r)
     = 87 + 2 * length (hmac_key (TextEncoder_encode pw)) + length (TextEncoder_encode plaintext)"
  by (simp add: combined_bytes_def ref_webcrypto_def ref_header_def length_frame deriveKey_def
      length_drawn_salt length_drawn_iv)

lemma length_hmac_key: "length p \<le> 64 \<Longrightarrow> length (hmac_key p) = 64"
  by (simp add: hmac_key_def)

lemma ref_max_arguments: "max_arguments ref_webcrypto = 65536"
  by (simp add: ref_webcrypto_def)

lemma replicate_numeral': "replicate (numeral k) x = x # replicate (pred_numeral k) x"
  by (simp add: numeral_eq_Suc)

lemma ref_combined_hi:
  "length (combined_bytes ref_webcrypto (of_ascii ''hi'') (of_ascii ''longpass1'') r) = 217"
  by (simp add: ref_combined_length length_hmac_key text_eval)

text \<open>
  C3. Every token that \<open>encrypt\<close> returns is the base64 text of the 16 bytes of
  salt, the 12 bytes of nonce and the output of AES-GCM, in this order; \<open>atob\<close> gives
  these bytes back, the slices of \<open>decrypt\<close> at 16 and 28 are the salt, the nonce and
  the rest, and \<open>decrypt\<close> derives its key from the salt it has split off.
\<close>

theorem encrypt_token_layout:
  assumes "fst (encrypt wc plaintext pw r) = Inr token"
  shows "let salt = drawn_salt r; iv = drawn_iv r;
       ct = aes_gcm_encrypt wc (deriveKey wc pw salt) iv (TextEncoder_encode plaintext);
       combined = salt @ iv @ ct
   in token = base64_encode combined
      \<and> length salt = 16 \<and> length iv = 12
      \<and> atob token = Inr (binary_string combined)
      \<and> Uint8Array_from (binary_string combined) = combined
      \<and> slice' 0 16 combined = salt \<and> slice' 16 28 combined = iv \<and> drop 28 combined = ct
      \<and> decrypt_try wc token pw' =
          (case aes_gcm_decrypt wc (deriveKey wc pw' salt) iv ct of
             None \<Rightarrow> Inl OperationError
           | Some pt \<Rightarrow> Inr (TextDecoder_decode pt))"
  unfolding Let_def
  using encrypt_produced(1)[OF assms]
  by (simp add: combined_bytes_def length_drawn_salt length_drawn_iv atob_base64_encode
      Uint8Array_from_binary_string slice'_def decrypt_try_base64)


lemma token_hi:
  "fst (encrypt ref_webcrypto (of_ascii ''hi'') (of_ascii ''longpass1'') (random_bytes ref_world))
     = Inr (of_ascii
        ''AAECAwQFBgcICQoLDA0ODxAREhMUFRYXGBkaGwFsAW8BbgFnAXABYQFzAXMBMQEAAQABAAEAAQABAAEAAQABAAEAAQABAAEAAQABAAEAAQABAAEAAQABAAEAAQABAAEAAQABAAEAAQABAAEAAQABAAEAAQABAAEAAQABAAEAAQABAAEAAQABAAEAAQABAAEAAQABAAEAAQABAAEAAAEAAQEBAgEDAQQBBQEGAQcBCAEJAQoBCwEMAQ0BDgEPAAEQAREBEgETARQBFQEWARcBGAEZARoBGwBoaQ=='')"
proof -
  have "base64_encode (combined_bytes ref_webcrypto (of_ascii ''hi'') (of_ascii ''longpass1'')
                         (random_bytes ref_world))
          = of_ascii
        ''AAECAwQFBgcICQoLDA0ODxAREhMUFRYXGBkaGwFsAW8BbgFnAXABYQFzAXMBMQEAAQABAAEAAQABAAEAAQABAAEAAQABAAEAAQABAAEAAQABAAEAAQABAAEAAQABAAEAAQABAAEAAQABAAEAAQABAAEAAQABAAEAAQABAAEAAQABAAEAAQABAAEAAQABAAEAAQABAAEAAQABAAEAAAEAAQEBAgEDAQQBBQEGAQcBCAEJAQoBCwEMAQ0BDgEPAAEQAREBEgETARQBFQEWARcBGAEZARoBGwBoaQ==''"
    by (simp add: combined_bytes_def drawn_salt_def drawn_iv_def getRandomValues_def ref_world_def
        ref_webcrypto_def ref_header_def frame_def hmac_key_def deriveKey_def text_eval
        base64_encode_def b64_char_def upt_rec replicate_numeral')
  then show ?thesis by (simp add: encrypt_fits ref_combined_hi ref_max_arguments)
qed

text \<open>The token of \<open>hi\<close> under \<open>longpass1\<close> on the reference instance.\<close>

theorem encrypt_token_layout_witness:
  "fst (encrypt ref_webcrypto (of_ascii ''hi'') (of_ascii ''longpass1'') (random_bytes ref_world))
     = Inr (of_ascii
        ''AAECAwQFBgcICQoLDA0ODxAREhMUFRYXGBkaGwFsAW8BbgFnAXABYQFzAXMBMQEAAQABAAEAAQABAAEAAQABAAEAAQABAAEAAQABAAEAAQABAAEAAQABAAEAAQABAAEAAQABAAEAAQABAAEAAQABAAEAAQABAAEAAQABAAEAAQABAAEAAQABAAEAAQABAAEAAQABAAEAAQABAAEAAAEAAQEBAgEDAQQBBQEGAQcBCAEJAQoBCwEMAQ0BDgEPAAEQAREBEgETARQBFQEWARcBGAEZARoBGwBoaQ=='')
   \<and> of_ascii
        ''AAECAwQFBgcICQoLDA0ODxAREhMUFRYXGBkaGwFsAW8BbgFnAXABYQFzAXMBMQEAAQABAAEAAQABAAEAAQABAAEAAQABAAEAAQABAAEAAQABAAEAAQABAAEAAQABAAEAAQABAAEAAQABAAEAAQABAAEAAQABAAEAAQABAAEAAQABAAEAAQABAAEAAQABAAEAAQABAAEAAQABAAEAAAEAAQEBAgEDAQQBBQEGAQcBCAEJAQoBCwEMAQ0BDgEPAAEQAREBEgETARQBFQEWARcBGAEZARoBGwBoaQ==''
     = base64_encode (combined_bytes ref_webcrypto (of_ascii ''hi'') (of_ascii ''longpass1'')
                        (random_bytes ref_world))
   \<and> atob (of_ascii
        ''AAECAwQFBgcICQoLDA0ODxAREhMUFRYXGBkaGwFsAW8BbgFnAXABYQFzAXMBMQEAAQABAAEAAQABAAEAAQABAAEAAQABAAEAAQABAAEAAQABAAEAAQABAAEAAQABAAEAAQABAAEAAQABAAEAAQABAAEAAQABAAEAAQABAAEAAQABAAEAAQABAAEAAQABAAEAAQABAAEAAQABAAEAAAEAAQEBAgEDAQQBBQEGAQcBCAEJAQoBCwEMAQ0BDgEPAAEQAREBEgETARQBFQEWARcBGAEZARoBGwBoaQ=='')
     = Inr (binary_string (combined_bytes ref_webcrypto (of_ascii ''hi'') (of_ascii ''longpass1'')
                             (random_bytes ref_world)))
   \<and> slice' 0 16 (combined_bytes ref_webcrypto (of_ascii ''hi'') (of_ascii ''longpass1'')
                     (random_bytes ref_world))
     = drawn_salt (random_bytes ref_world)
   \<and> slice' 16 28 (combined_bytes ref_webcrypto (of_ascii ''hi'') (of_ascii ''longpass1'')
                      (random_bytes ref_world))
     = drawn_iv (random_bytes ref_world)"
proof -
  note layout = encrypt_token_layout[OF token_hi, unfolded Let_def, of "of_ascii ''longpass1''"]
  show ?thesis unfolding combined_bytes_def using layout token_hi by blast
qed

lemma token_inject:
  assumes "base64_encode (s1 @ n1 @ c1) = base64_encode (s2 @ n2 @ c2)"
    and "length s1 = length s2" and "length n1 = length n2"
  shows "s1 = s2 \<and> n1 = n2 \<and> c1 = c2"
proof -
  from assms(1) have "s1 @ n1 @ c1 = s2 @ n2 @ c2" by (rule base64_encode_inject)
  with assms(2,3) show ?thesis by simp
qed

text \<open>
  C4, as the code has it. Each call of \<open>encrypt\<close> takes 16 bytes of salt and then 12
  bytes of nonce from the random generator and leaves the generator behind them, so
  that a second call reads the following 28 bytes. Two tokens of the same plaintext
  and secret are equal exactly when the two calls were given the same salt and nonce.
\<close>

theorem encrypt_tokens_equal_iff:
  assumes "fst (encrypt wc plaintext pw r) = Inr t" and "fst (encrypt wc plaintext pw r') = Inr t'"
  shows "(t = t') = (drawn_salt r = drawn_salt r' \<and> drawn_iv r = drawn_iv r')
     \<and> length (drawn_salt r) = 16 \<and> length (drawn_iv r) = 12
     \<and> drawn_salt r = map r [0..<16] \<and> drawn_iv r = map r [16..<28]
     \<and> snd (encrypt wc plaintext pw r) = (\<lambda>i. r (28 + i))"
proof -
  note t = encrypt_produced(1)[OF assms(1)] and t' = encrypt_produced(1)[OF assms(2)]
  have "drawn_salt r = drawn_salt r' \<and> drawn_iv r = drawn_iv r'" if "t = t'"
    using that token_inject[of "drawn_salt r" "drawn_iv r" _ "drawn_salt r'" "drawn_iv r'"]
    unfolding t t' by (simp add: combined_bytes_def length_drawn_salt length_drawn_iv)
  moreover have "t = t'" if "drawn_salt r = drawn_salt r' \<and> drawn_iv r = drawn_iv r'"
    using that unfolding t t' by (simp add: combined_bytes_def)
  moreover have "drawn_iv r = map r [16..<28]"
    using map_shift_upt[of r 16 12] by (simp add: drawn_iv_def getRandomValues_def)
  moreover have "drawn_salt r = map r [0..<16]"
    by (simp add: drawn_salt_def getRandomValues_def)
  ultimately show ?thesis
    using snd_encrypt[of wc plaintext pw r] length_drawn_salt[of r] length_drawn_iv[of r]
    by blast
qed

text \<open>Two calls in a row on the counting generator: the second draws bytes 28 to 55.\<close>

theorem encrypt_tokens_equal_iff_witness:
  "fst (encrypt ref_webcrypto (of_ascii ''hi'') (of_ascii ''longpass1'') (random_bytes ref_world))
     = Inr (base64_encode (combined_bytes ref_webcrypto (of_ascii ''hi'') (of_ascii ''longpass1'')
                             (random_bytes ref_world)))
   \<and> fst (encrypt ref_webcrypto (of_ascii ''hi'') (of_ascii ''longpass1'')
            (snd (encrypt ref_webcrypto (of_ascii ''hi'') (of_ascii ''longpass1'')
                    (random_bytes ref_world))))
     = Inr (base64_encode (combined_bytes ref_webcrypto (of_ascii ''hi'') (of_ascii ''longpass1'')
                             (snd (encrypt ref_webcrypto (of_ascii ''hi'') (of_ascii ''longpass1'')
                                     (random_bytes ref_world)))))
   \<and> drawn_salt (random_bytes ref_world)
       \<noteq> drawn_salt (snd (encrypt ref_webcrypto (of_ascii ''hi'') (of_ascii ''longpass1'')
                              (random_bytes ref_world)))
   \<and> base64_encode (combined_bytes ref_webcrypto (of_ascii ''hi'') (of_ascii ''longpass1'')
                       (random_bytes ref_world))
       \<noteq> base64_encode (combined_bytes ref_webcrypto (of_ascii ''hi'') (of_ascii ''longpass1'')
                           (snd (encrypt ref_webcrypto (of_ascii ''hi'') (of_ascii ''longpass1'')
                                   (random_bytes ref_world))))"
proof -
  let ?r = "random_bytes ref_world"
  let ?r' = "snd (encrypt ref_webcrypto (of_ascii ''hi'') (of_ascii ''longpass1'') ?r)"
  have fits: "fst (encrypt ref_webcrypto (of_ascii ''hi'') (of_ascii ''longpass1'') r)
                = Inr (base64_encode (combined_bytes ref_webcrypto (of_ascii ''hi'')
                                        (of_ascii ''longpass1'') r))" for r
    by (rule encrypt_fits) (simp add: ref_combined_hi ref_max_arguments)
  have "hd (drawn_salt ?r) = 0" "hd (drawn_salt ?r') = 28"
    by (simp_all add: drawn_salt_def getRandomValues_def snd_encrypt ref_world_def upt_rec)
  then have fresh: "drawn_salt ?r \<noteq> drawn_salt ?r'" by auto
  from encrypt_tokens_equal_iff[OF fits[of ?r] fits[of ?r']] fits[of ?r] fits[of ?r'] fresh
  show ?thesis by blast
qed

text \<open>
  The claim as written fails: on a generator that delivers the same bytes again, two
  encryptions in a row of the same plaintext under the same secret return the same
  token.
\<close>

theorem encrypt_same_token_counterexample:
  "fst (encrypt ref_webcrypto (of_ascii ''hi'') (of_ascii ''longpass1'') constant_generator)
     = Inr (base64_encode (combined_bytes ref_webcrypto (of_ascii ''hi'') (of_ascii ''longpass1'')
                             constant_generator))
   \<and> fst (encrypt ref_webcrypto (of_ascii ''hi'') (of_ascii ''longpass1'')
            (snd (encrypt ref_webcrypto (of_ascii ''hi'') (of_ascii ''longpass1'')
                    constant_generator)))
     = Inr (base64_encode (combined_bytes ref_webcrypto (of_ascii ''hi'') (of_ascii ''longpass1'')
                             constant_generator))"
proof -
  have fits: "fst (encrypt ref_webcrypto (of_ascii ''hi'') (of_ascii ''longpass1'') r)
                = Inr (base64_encode (combined_bytes ref_webcrypto (of_ascii ''hi'')
                                        (of_ascii ''longpass1'') r))" for r
    by (rule encrypt_fits) (simp add: ref_combined_hi ref_max_arguments)
  have "snd (encrypt ref_webcrypto (of_ascii ''hi'') (of_ascii ''longpass1'') constant_generator)
          = constant_generator"
    by (simp add: snd_encrypt constant_generator_def)
  with fits[of constant_generator] show ?thesis by simp
qed

section \<open>Round trip of \<open>encrypt\<close> and \<open>decrypt\<close>\<close>

lemma decrypt_base64:
  assumes "length salt = 16" and "length iv = 12"
  shows "decrypt wc (base64_encode (salt @ iv @ ct)) pw =
     (case aes_gcm_decrypt wc (deriveKey wc pw salt) iv ct of
        None \<Rightarrow> Inl DecryptionFailed
      | Some pt \<Rightarrow> Inr (TextDecoder_decode pt))"
  by (simp add: decrypt_def decrypt_try_base64[OF assms] split: option.splits)

lemma decrypt_token:
  assumes "fst (encrypt wc plaintext pw r) = Inr token"
  shows "decrypt wc token pw' =
     (case aes_gcm_decrypt wc (deriveKey wc pw' (drawn_salt r)) (drawn_iv r)
             (aes_gcm_encrypt wc (deriveKey wc pw (drawn_salt r)) (drawn_iv r)
                (TextEncoder_encode plaintext)) of
        None \<Rightarrow> Inl DecryptionFailed
      | Some pt \<Rightarrow> Inr (TextDecoder_decode pt))"
  unfolding encrypt_produced(1)[OF assms] combined_bytes_def
  by (simp add: decrypt_base64 length_drawn_salt length_drawn_iv)

lemma same_key_decodes:
  assumes "aead_correct wc" and "fst (encrypt wc plaintext pw r) = Inr token"
    and "deriveKey wc pw' (drawn_salt r) = deriveKey wc pw (drawn_salt r)"
  shows "decrypt wc token pw' = Inr (TextDecoder_decode (TextEncoder_encode plaintext))"
  using assms(1,3) by (simp add: decrypt_token[OF assms(2)] aead_correct_def)

lemma roundtrip_any_secret:
  assumes "aead_correct wc" "wellformed_utf16 plaintext" "\<not> starts_with_bom plaintext"
    and "fst (encrypt wc plaintext pw r) = Inr token"
  shows "decrypt wc token pw = Inr plaintext"
  using same_key_decodes[OF assms(1,4), of pw] assms(2,3) by (simp add: TextDecoder_TextEncoder)

lemma decrypt_encrypted_produced:
  assumes "fst (encrypt wc plaintext pw r) = Inr token"
  shows "decrypt_encrypted wc plaintext pw pw' r = decrypt wc token pw'"
  using assms by (simp add: decrypt_encrypted_def)

lemma ref_token:
  assumes "length (TextEncoder_encode pw) \<le> 64" and "length (TextEncoder_encode plaintext) \<le> 1000"
  shows "fst (encrypt ref_webcrypto plaintext pw r)
           = Inr (base64_encode (combined_bytes ref_webcrypto plaintext pw r))"
  using assms
  by (intro encrypt_fits) (simp add: ref_combined_length length_hmac_key ref_max_arguments)

lemma small_engine_eval:
  "aead_correct small_engine"
  "max_arguments small_engine < length (combined_bytes small_engine plaintext pw r)"
proof -
  show "aead_correct small_engine"
    using ref_aead_correct by (simp add: small_engine_def aead_correct_def)
  have "combined_bytes small_engine plaintext pw r = combined_bytes ref_webcrypto plaintext pw r"
    by (simp add: small_engine_def combined_bytes_def deriveKey_def)
  then show "max_arguments small_engine < length (combined_bytes small_engine plaintext pw r)"
    by (simp add: ref_combined_length small_engine_def hmac_key_def)
qed

lemma wellformed_ascii: "wellformed_utf16 (of_ascii ''hunter2'')" "\<not> starts_with_bom (of_ascii ''hunter2'')"
  by (simp_all add: of_ascii_def high_surrogate_def low_surrogate_def starts_with_bom_def)

text \<open>
  C1, as the code has it. With an AES-GCM that decrypts what it encrypted, for every
  plaintext that is well-formed UTF-16 and does not start with U+FEFF and every secret
  of at least 8 characters: a token that \<open>encrypt\<close> returned for the plaintext under
  the secret is decrypted to the plaintext by \<open>decrypt\<close> under the same secret;
  \<open>encrypt\<close> does return a token, and the round trip the plaintext, when the bytes it
  assembles fit the argument limit of the engine; and past that limit \<open>encrypt\<close>
  throws a \<open>RangeError\<close>, so that there is nothing to decrypt.
\<close>

theorem decrypt_encrypt_roundtrip:
  assumes "aead_correct wc" and "wellformed_utf16 plaintext" and "\<not> starts_with_bom plaintext"
    and "8 \<le> length pw"
  shows "(fst (encrypt wc plaintext pw r) = Inr token \<longrightarrow> decrypt wc token pw = Inr plaintext)
       \<and> (length (combined_bytes wc plaintext pw r) \<le> max_arguments wc \<longrightarrow>
            decrypt_encrypted wc plaintext pw pw r = Inr plaintext)
       \<and> (max_arguments wc < length (combined_bytes wc plaintext pw r) \<longrightarrow>
            fst (encrypt wc plaintext pw r) = Inl RangeError
            \<and> decrypt_encrypted wc plaintext pw pw r = Inl RangeError)"
proof -
  have "decrypt_encrypted wc plaintext pw pw r = Inr plaintext"
    if "length (combined_bytes wc plaintext pw r) \<le> max_arguments wc"
  proof -
    note tok = encrypt_fits[OF that]
    from roundtrip_any_secret[OF assms(1-3) tok] show ?thesis
      by (simp add: decrypt_encrypted_produced[OF tok])
  qed
  moreover have "fst (encrypt wc plaintext pw r) = Inl RangeError
            \<and> decrypt_encrypted wc plaintext pw pw r = Inl RangeError"
    if "max_arguments wc < length (combined_bytes wc plaintext pw r)"
    using that by (simp add: encrypt_eq decrypt_encrypted_def)
  ultimately show ?thesis using roundtrip_any_secret[OF assms(1-3), of pw r token] by blast
qed

text \<open>
  On the reference instance the password \<open>hunter2\<close> comes back under the secret
  \<open>longpass1\<close>; on an engine of 100 arguments its encryption throws.
\<close>

theorem decrypt_encrypt_roundtrip_witness:
  "aead_correct ref_webcrypto \<and> wellformed_utf16 (of_ascii ''hunter2'')
   \<and> \<not> starts_with_bom (of_ascii ''hunter2'') \<and> 8 \<le> length (of_ascii ''longpass1'')
   \<and> length (combined_bytes ref_webcrypto (of_ascii ''hunter2'') (of_ascii ''longpass1'')
                (random_bytes ref_world)) \<le> max_arguments ref_webcrypto
   \<and> fst (encrypt ref_webcrypto (of_ascii ''hunter2'') (of_ascii ''longpass1'')
            (random_bytes ref_world))
       = Inr (base64_encode (combined_bytes ref_webcrypto (of_ascii ''hunter2'')
                               (of_ascii ''longpass1'') (random_bytes ref_world)))
   \<and> decrypt ref_webcrypto
        (base64_encode (combined_bytes ref_webcrypto (of_ascii ''hunter2'')
                          (of_ascii ''longpass1'') (random_bytes ref_world)))
        (of_ascii ''longpass1'') = Inr (of_ascii ''hunter2'')
   \<and> decrypt_encrypted ref_webcrypto (of_ascii ''hunter2'') (of_ascii ''longpass1'')
        (of_ascii ''longpass1'') (random_bytes ref_world) = Inr (of_ascii ''hunter2'')
   \<and> aead_correct small_engine
   \<and> max_arguments small_engine
       < length (combined_bytes small_engine (of_ascii ''hunter2'') (of_ascii ''longpass1'')
                   (random_bytes ref_world))
   \<and> fst (encrypt small_engine (of_ascii ''hunter2'') (of_ascii ''longpass1'')
            (random_bytes ref_world)) = Inl RangeError"
proof -
  have len: "8 \<le> length (of_ascii ''longpass1'')" by (simp add: of_ascii_def)
  have fits: "length (combined_bytes ref_webcrypto (of_ascii ''hunter2'') (of_ascii ''longpass1'')
                (random_bytes ref_world)) \<le> max_arguments ref_webcrypto"
    by (simp add: ref_combined_length length_hmac_key ref_max_arguments text_eval)
  have tok: "fst (encrypt ref_webcrypto (of_ascii ''hunter2'') (of_ascii ''longpass1'')
                    (random_bytes ref_world))
       = Inr (base64_encode (combined_bytes ref_webcrypto (of_ascii ''hunter2'')
                               (of_ascii ''longpass1'') (random_bytes ref_world)))"
    using fits by (rule encrypt_fits)
  note big = small_engine_eval(2)[of "of_ascii ''hunter2''" "of_ascii ''longpass1''"
      "random_bytes ref_world"]
  from decrypt_encrypt_roundtrip[OF ref_aead_correct wellformed_ascii len,
      of "random_bytes ref_world"
         "base64_encode (combined_bytes ref_webcrypto (of_ascii ''hunter2'')
                               (of_ascii ''longpass1'') (random_bytes ref_world))"]
    decrypt_encrypt_roundtrip[OF small_engine_eval(1) wellformed_ascii len,
      of "random_bytes ref_world" "[]"]
    ref_aead_correct wellformed_ascii len fits tok small_engine_eval(1) big
  show ?thesis by blast
qed

text \<open>
  The claim as written fails for a plaintext with an unpaired surrogate: the encoder
  writes U+FFFD in its place, and that is what comes back.
\<close>

theorem roundtrip_lone_surrogate_counterexample:
  "8 \<le> length (of_ascii ''longpass1'')
   \<and> decrypt_encrypted ref_webcrypto [0xD800] (of_ascii ''longpass1'') (of_ascii ''longpass1'')
        (random_bytes ref_world) = Inr [0xFFFD]"
proof -
  have dec: "TextDecoder_decode (TextEncoder_encode [0xD800]) = [0xFFFD]"
    by (simp add: text_eval TextDecoder_decode_def utf8_init_def strip_bom_def utf16_of_scalar_def)
  have tok: "fst (encrypt ref_webcrypto [0xD800] (of_ascii ''longpass1'') (random_bytes ref_world))
       = Inr (base64_encode (combined_bytes ref_webcrypto [0xD800] (of_ascii ''longpass1'')
                               (random_bytes ref_world)))"
    by (rule ref_token) (simp_all add: text_eval)
  from same_key_decodes[OF ref_aead_correct tok, of "of_ascii ''longpass1''"] dec
  have "decrypt_encrypted ref_webcrypto [0xD800] (of_ascii ''longpass1'') (of_ascii ''longpass1'')
          (random_bytes ref_world) = Inr [0xFFFD]"
    by (simp add: decrypt_encrypted_produced[OF tok])
  then show ?thesis by (simp add: of_ascii_def)
qed

text \<open>A leading U+FEFF is dropped by the decoder.\<close>

lemma roundtrip_bom:
  "decrypt_encrypted ref_webcrypto [0xFEFF, 0x61] (of_ascii ''longpass1'') (of_ascii ''longpass1'')
        (random_bytes ref_world) = Inr [0x61]"
proof -
  have dec: "TextDecoder_decode (TextEncoder_encode [0xFEFF, 0x61]) = [0x61]"
    by (simp add: text_eval TextDecoder_decode_def utf8_init_def strip_bom_def utf16_of_scalar_def)
  have tok: "fst (encrypt ref_webcrypto [0xFEFF, 0x61] (of_ascii ''longpass1'')
                    (random_bytes ref_world))
       = Inr (base64_encode (combined_bytes ref_webcrypto [0xFEFF, 0x61] (of_ascii ''longpass1'')
                               (random_bytes ref_world)))"
    by (rule ref_token) (simp_all add: text_eval)
  from same_key_decodes[OF ref_aead_correct tok, of "of_ascii ''longpass1''"] dec
  show ?thesis by (simp add: decrypt_encrypted_produced[OF tok])
qed

section \<open>Secrets of any length\<close>

text \<open>
  Past the argument limit \<open>encrypt\<close> throws instead of returning a token, whatever
  the plaintext and the secret are.
\<close>

lemma encrypt_RangeError:
  "max_arguments wc < length (combined_bytes wc plaintext pw r) \<Longrightarrow>
   fst (encrypt wc plaintext pw r) = Inl RangeError"
  by (simp add: encrypt_eq)

text \<open>
  C6, as the code has it. \<open>deriveKey\<close> and \<open>encrypt\<close> have no length check. For a
  secret shorter than 8 characters \<open>encrypt\<close> returns a token whenever the bytes fit
  the argument limit of the engine, and a token it returned decrypts under the same
  short secret. The minimum length of 8 exists only as the \<open>minLength\<close> attribute of
  the input field of the master-password prompt.
\<close>

theorem deriveKey_any_length:
  assumes "length pw < 8"
  shows "(length (combined_bytes wc plaintext pw r) \<le> max_arguments wc \<longrightarrow>
            \<not> isl (fst (encrypt wc plaintext pw r)))
       \<and> (\<not> isl (fst (encrypt wc plaintext pw r)) \<and> aead_correct wc
          \<and> wellformed_utf16 plaintext \<and> \<not> starts_with_bom plaintext \<longrightarrow>
            decrypt_encrypted wc plaintext pw pw r = Inr plaintext)"
proof -
  have "decrypt_encrypted wc plaintext pw pw r = Inr plaintext"
    if "\<not> isl (fst (encrypt wc plaintext pw r))" "aead_correct wc"
      "wellformed_utf16 plaintext" "\<not> starts_with_bom plaintext"
  proof -
    from that(1) obtain token where tok: "fst (encrypt wc plaintext pw r) = Inr token"
      by (cases "fst (encrypt wc plaintext pw r)") auto
    from roundtrip_any_secret[OF that(2-4) tok] show ?thesis
      by (simp add: decrypt_encrypted_produced[OF tok])
  qed
  then show ?thesis by (auto simp: encrypt_fits)
qed

theorem deriveKey_any_length_witness:
  "length (of_ascii ''short'') < 8
   \<and> length (combined_bytes ref_webcrypto (of_ascii ''hunter2'') (of_ascii ''short'')
                (random_bytes ref_world)) \<le> max_arguments ref_webcrypto
   \<and> aead_correct ref_webcrypto \<and> wellformed_utf16 (of_ascii ''hunter2'')
   \<and> \<not> starts_with_bom (of_ascii ''hunter2'')
   \<and> \<not> isl (fst (encrypt ref_webcrypto (of_ascii ''hunter2'') (of_ascii ''short'')
                     (random_bytes ref_world)))
   \<and> decrypt_encrypted ref_webcrypto (of_ascii ''hunter2'') (of_ascii ''short'')
        (of_ascii ''short'') (random_bytes ref_world) = Inr (of_ascii ''hunter2'')"
proof -
  have len: "length (of_ascii ''short'') < 8" by (simp add: of_ascii_def)
  have fits: "length (combined_bytes ref_webcrypto (of_ascii ''hunter2'') (of_ascii ''short'')
                (random_bytes ref_world)) \<le> max_arguments ref_webcrypto"
    by (simp add: ref_combined_length length_hmac_key ref_max_arguments text_eval)
  from deriveKey_any_length[OF len, of ref_webcrypto "of_ascii ''hunter2''" "random_bytes ref_world"]
    len fits ref_aead_correct wellformed_ascii
  show ?thesis by simp
qed

text \<open>The claim as written fails: a key is derived from the five characters \<open>short\<close>.\<close>

theorem deriveKey_short_counterexample:
  "length (of_ascii ''short'') = 5
   \<and> deriveKey ref_webcrypto (of_ascii ''short'') [0, 1, 2, 3, 4, 5, 6, 7, 8, 9, 10, 11, 12, 13, 14, 15]
       = (hmac_key [0x73, 0x68, 0x6F, 0x72, 0x74],
          [0, 1, 2, 3, 4, 5, 6, 7, 8, 9, 10, 11, 12, 13, 14, 15])
   \<and> \<not> isl (fst (encrypt ref_webcrypto (of_ascii ''hunter2'') (of_ascii ''short'')
                     (random_bytes ref_world)))"
proof -
  have "fst (encrypt ref_webcrypto (of_ascii ''hunter2'') (of_ascii ''short'')
               (random_bytes ref_world))
       = Inr (base64_encode (combined_bytes ref_webcrypto (of_ascii ''hunter2'')
                               (of_ascii ''short'') (random_bytes ref_world)))"
    by (rule ref_token) (simp_all add: text_eval)
  then show ?thesis by (simp add: deriveKey_def ref_webcrypto_def text_eval)
qed

section \<open>What \<open>decrypt\<close> accepts and what it rejects\<close>

lemma decrypt_uniform: "decrypt_try wc T S = Inl e \<Longrightarrow> decrypt wc T S = Inl DecryptionFailed"
  by (simp add: decrypt_def)

lemma decrypt_atob_cong: "atob T' = atob T \<Longrightarrow> decrypt wc T' S = decrypt wc T S"
  by (simp add: decrypt_def decrypt_try_def)

lemma atob_whitespace: "ascii_whitespace c \<Longrightarrow> atob (T @ [c]) = atob T"
  by (simp add: atob_def)

lemma decrypt_try_bytes:
  "decrypt_try wc (base64_encode c) S =
     (case aes_gcm_decrypt wc (deriveKey wc S (slice' 0 16 c)) (slice' 16 28 c) (drop 28 c) of
        None \<Rightarrow> Inl OperationError
      | Some pt \<Rightarrow> Inr (TextDecoder_decode pt))"
  by (simp add: decrypt_try_def atob_base64_encode Uint8Array_from_binary_string Let_def)

lemma decrypt_try_token:
  assumes "fst (encrypt wc plaintext pw r) = Inr token"
  shows "decrypt_try wc token pw' =
     (case aes_gcm_decrypt wc (deriveKey wc pw' (drawn_salt r)) (drawn_iv r)
             (aes_gcm_encrypt wc (deriveKey wc pw (drawn_salt r)) (drawn_iv r)
                (TextEncoder_encode plaintext)) of
        None \<Rightarrow> Inl OperationError
      | Some pt \<Rightarrow> Inr (TextDecoder_decode pt))"
  unfolding encrypt_produced(1)[OF assms] combined_bytes_def
  by (simp add: decrypt_try_base64 length_drawn_salt length_drawn_iv)

lemma decrypt_accepted:
  assumes "decrypt wc T S = Inr Q"
  shows "\<exists>bin pt. atob T = Inr bin
           \<and> aes_gcm_decrypt wc (deriveKey wc S (slice' 0 16 (Uint8Array_from bin)))
                (slice' 16 28 (Uint8Array_from bin)) (drop 28 (Uint8Array_from bin)) = Some pt
           \<and> Q = TextDecoder_decode pt"
  using assms
  by (auto simp: decrypt_def decrypt_try_def Let_def split: sum.splits option.splits)

text \<open>
  C2, as the code has it. Let \<open>token\<close> be a token that \<open>encrypt\<close> returned for \<open>P\<close>
  under \<open>S1\<close>. Whether \<open>decrypt\<close> accepts it under a secret \<open>S2\<close> is the verdict of
  AES-GCM on the ciphertext under the key derived from \<open>S2\<close> and the salt of the token,
  and the same holds of any bytes \<open>c\<close> put in the place of those of the token. Whatever
  was thrown inside, by \<open>atob\<close> or by AES-GCM, \<open>decrypt\<close> fails with the one error
  \<open>DecryptionFailed\<close>. A secret that derives the key of \<open>S1\<close> decrypts the token, and a
  text that \<open>atob\<close> maps to the bytes of the token is decrypted as the token is. A
  plaintext that \<open>decrypt\<close> returns is the decoding of what AES-GCM returned for the
  decoded bytes under the key of the supplied secret.
\<close>

theorem decrypt_outcome:
  assumes "fst (encrypt wc P S1 r) = Inr token"
  shows "decrypt_try wc token S2 =
           (case aes_gcm_decrypt wc (deriveKey wc S2 (drawn_salt r)) (drawn_iv r)
                   (aes_gcm_encrypt wc (deriveKey wc S1 (drawn_salt r)) (drawn_iv r)
                      (TextEncoder_encode P)) of
              None \<Rightarrow> Inl OperationError
            | Some pt \<Rightarrow> Inr (TextDecoder_decode pt))
       \<and> decrypt_try wc (base64_encode c) S2 =
           (case aes_gcm_decrypt wc (deriveKey wc S2 (slice' 0 16 c)) (slice' 16 28 c) (drop 28 c) of
              None \<Rightarrow> Inl OperationError
            | Some pt \<Rightarrow> Inr (TextDecoder_decode pt))
       \<and> (decrypt_try wc T0 S0 = Inl e \<longrightarrow> decrypt wc T0 S0 = Inl DecryptionFailed)
       \<and> (aead_correct wc \<and> deriveKey wc S2 (drawn_salt r) = deriveKey wc S1 (drawn_salt r) \<longrightarrow>
            decrypt wc token S2 = Inr (TextDecoder_decode (TextEncoder_encode P)))
       \<and> (atob T' = atob token \<longrightarrow> decrypt wc T' S2 = decrypt wc token S2)
       \<and> (decrypt wc T S = Inr Q \<longrightarrow>
            (\<exists>bin pt. atob T = Inr bin
               \<and> aes_gcm_decrypt wc (deriveKey wc S (slice' 0 16 (Uint8Array_from bin)))
                    (slice' 16 28 (Uint8Array_from bin)) (drop 28 (Uint8Array_from bin)) = Some pt
               \<and> Q = TextDecoder_decode pt))"
  using decrypt_try_token[OF assms, of S2] decrypt_try_bytes[of wc c S2]
    decrypt_uniform[of wc T0 S0 e] same_key_decodes[OF _ assms, of S2]
    decrypt_atob_cong[of T' token wc S2] decrypt_accepted[of wc T S Q]
  by blast

lemma ref_header_inject:
  assumes "ref_header k iv @ pt = ref_header k' iv' @ pt'"
  shows "k = k' \<and> iv = iv' \<and> pt = pt'"
proof -
  from assms have "frame (fst k) @ (frame (snd k) @ frame iv @ pt)
                 = frame (fst k') @ (frame (snd k') @ frame iv' @ pt')"
    by (simp add: ref_header_def)
  then have a: "fst k = fst k'" and "frame (snd k) @ (frame iv @ pt) = frame (snd k') @ (frame iv' @ pt')"
    using frame_inject by blast+
  then have b: "snd k = snd k'" and "frame iv @ pt = frame iv' @ pt'"
    using frame_inject by blast+
  then have "iv = iv'" "pt = pt'" using frame_inject by blast+
  with a b show ?thesis by (simp add: prod_eq_iff)
qed

lemma ref_other_key:
  assumes "k' \<noteq> k"
  shows "aes_gcm_decrypt ref_webcrypto k' iv (aes_gcm_encrypt ref_webcrypto k iv pt) = None"
proof -
  have "take (length (ref_header k' iv)) (ref_header k iv @ pt) \<noteq> ref_header k' iv"
  proof
    assume "take (length (ref_header k' iv)) (ref_header k iv @ pt) = ref_header k' iv"
    then have "ref_header k iv @ pt
                 = ref_header k' iv @ drop (length (ref_header k' iv)) (ref_header k iv @ pt)"
      by (metis append_take_drop_id)
    then have "k = k'" using ref_header_inject by blast
    with assms show False by simp
  qed
  then show ?thesis by (simp add: ref_webcrypto_def ref_decrypt_def Let_def)
qed

lemma padded_secret:
  "of_ascii ''longpass1'' @ [0] \<noteq> of_ascii ''longpass1''"
  "deriveKey ref_webcrypto (of_ascii ''longpass1'' @ [0]) salt
     = deriveKey ref_webcrypto (of_ascii ''longpass1'') salt"
  "deriveKey ref_webcrypto (of_ascii ''longpass2'') salt
     \<noteq> deriveKey ref_webcrypto (of_ascii ''longpass1'') salt"
  by (simp_all add: deriveKey_def ref_webcrypto_def hmac_key_def text_eval replicate_numeral')

lemma wellformed_hi: "wellformed_utf16 (of_ascii ''hi'')" "\<not> starts_with_bom (of_ascii ''hi'')"
  by (simp_all add: of_ascii_def high_surrogate_def low_surrogate_def starts_with_bom_def)

lemma decode_hi: "TextDecoder_decode (TextEncoder_encode (of_ascii ''hi'')) = of_ascii ''hi''"
  using wellformed_hi by (rule TextDecoder_TextEncoder)

text \<open>
  On the reference instance, with the token of \<open>hi\<close> under \<open>longpass1\<close>: the secret
  \<open>longpass2\<close> is rejected by AES-GCM and the text \<open>!\<close> by \<open>atob\<close>, with the same error
  of \<open>decrypt\<close>; 29 zero bytes in the place of the token's are rejected; the secret
  \<open>longpass1\<close> followed by U+0000 derives the key of \<open>longpass1\<close> and decrypts the token;
  and the token followed by a space is decrypted as the token is.
\<close>

theorem decrypt_outcome_witness:
  "fst (encrypt ref_webcrypto (of_ascii ''hi'') (of_ascii ''longpass1'') (random_bytes ref_world))
     = Inr (of_ascii
        ''AAECAwQFBgcICQoLDA0ODxAREhMUFRYXGBkaGwFsAW8BbgFnAXABYQFzAXMBMQEAAQABAAEAAQABAAEAAQABAAEAAQABAAEAAQABAAEAAQABAAEAAQABAAEAAQABAAEAAQABAAEAAQABAAEAAQABAAEAAQABAAEAAQABAAEAAQABAAEAAQABAAEAAQABAAEAAQABAAEAAQABAAEAAAEAAQEBAgEDAQQBBQEGAQcBCAEJAQoBCwEMAQ0BDgEPAAEQAREBEgETARQBFQEWARcBGAEZARoBGwBoaQ=='')
   \<and> decrypt_try ref_webcrypto (of_ascii
        ''AAECAwQFBgcICQoLDA0ODxAREhMUFRYXGBkaGwFsAW8BbgFnAXABYQFzAXMBMQEAAQABAAEAAQABAAEAAQABAAEAAQABAAEAAQABAAEAAQABAAEAAQABAAEAAQABAAEAAQABAAEAAQABAAEAAQABAAEAAQABAAEAAQABAAEAAQABAAEAAQABAAEAAQABAAEAAQABAAEAAQABAAEAAAEAAQEBAgEDAQQBBQEGAQcBCAEJAQoBCwEMAQ0BDgEPAAEQAREBEgETARQBFQEWARcBGAEZARoBGwBoaQ=='') (of_ascii ''longpass2'') = Inl OperationError
   \<and> decrypt ref_webcrypto (of_ascii
        ''AAECAwQFBgcICQoLDA0ODxAREhMUFRYXGBkaGwFsAW8BbgFnAXABYQFzAXMBMQEAAQABAAEAAQABAAEAAQABAAEAAQABAAEAAQABAAEAAQABAAEAAQABAAEAAQABAAEAAQABAAEAAQABAAEAAQABAAEAAQABAAEAAQABAAEAAQABAAEAAQABAAEAAQABAAEAAQABAAEAAQABAAEAAAEAAQEBAgEDAQQBBQEGAQcBCAEJAQoBCwEMAQ0BDgEPAAEQAREBEgETARQBFQEWARcBGAEZARoBGwBoaQ=='') (of_ascii ''longpass2'') = Inl DecryptionFailed
   \<and> decrypt_try ref_webcrypto (of_ascii ''!'') (of_ascii ''longpass1'') = Inl InvalidCharacterError
   \<and> decrypt ref_webcrypto (of_ascii ''!'') (of_ascii ''longpass1'') = Inl DecryptionFailed
   \<and> decrypt_try ref_webcrypto (base64_encode (replicate 29 0)) (of_ascii ''longpass1'')
       = Inl OperationError
   \<and> aead_correct ref_webcrypto
   \<and> deriveKey ref_webcrypto (of_ascii ''longpass1'' @ [0]) (drawn_salt (random_bytes ref_world))
       = deriveKey ref_webcrypto (of_ascii ''longpass1'') (drawn_salt (random_bytes ref_world))
   \<and> decrypt ref_webcrypto (of_ascii
        ''AAECAwQFBgcICQoLDA0ODxAREhMUFRYXGBkaGwFsAW8BbgFnAXABYQFzAXMBMQEAAQABAAEAAQABAAEAAQABAAEAAQABAAEAAQABAAEAAQABAAEAAQABAAEAAQABAAEAAQABAAEAAQABAAEAAQABAAEAAQABAAEAAQABAAEAAQABAAEAAQABAAEAAQABAAEAAQABAAEAAQABAAEAAAEAAQEBAgEDAQQBBQEGAQcBCAEJAQoBCwEMAQ0BDgEPAAEQAREBEgETARQBFQEWARcBGAEZARoBGwBoaQ=='') (of_ascii ''longpass1'' @ [0]) = Inr (of_ascii ''hi'')
   \<and> atob ((of_ascii
        ''AAECAwQFBgcICQoLDA0ODxAREhMUFRYXGBkaGwFsAW8BbgFnAXABYQFzAXMBMQEAAQABAAEAAQABAAEAAQABAAEAAQABAAEAAQABAAEAAQABAAEAAQABAAEAAQABAAEAAQABAAEAAQABAAEAAQABAAEAAQABAAEAAQABAAEAAQABAAEAAQABAAEAAQABAAEAAQABAAEAAQABAAEAAAEAAQEBAgEDAQQBBQEGAQcBCAEJAQoBCwEMAQ0BDgEPAAEQAREBEgETARQBFQEWARcBGAEZARoBGwBoaQ=='') @ [0x20]) = atob (of_ascii
        ''AAECAwQFBgcICQoLDA0ODxAREhMUFRYXGBkaGwFsAW8BbgFnAXABYQFzAXMBMQEAAQABAAEAAQABAAEAAQABAAEAAQABAAEAAQABAAEAAQABAAEAAQABAAEAAQABAAEAAQABAAEAAQABAAEAAQABAAEAAQABAAEAAQABAAEAAQABAAEAAQABAAEAAQABAAEAAQABAAEAAQABAAEAAAEAAQEBAgEDAQQBBQEGAQcBCAEJAQoBCwEMAQ0BDgEPAAEQAREBEgETARQBFQEWARcBGAEZARoBGwBoaQ=='')
   \<and> decrypt ref_webcrypto ((of_ascii
        ''AAECAwQFBgcICQoLDA0ODxAREhMUFRYXGBkaGwFsAW8BbgFnAXABYQFzAXMBMQEAAQABAAEAAQABAAEAAQABAAEAAQABAAEAAQABAAEAAQABAAEAAQABAAEAAQABAAEAAQABAAEAAQABAAEAAQABAAEAAQABAAEAAQABAAEAAQABAAEAAQABAAEAAQABAAEAAQABAAEAAQABAAEAAAEAAQEBAgEDAQQBBQEGAQcBCAEJAQoBCwEMAQ0BDgEPAAEQAREBEgETARQBFQEWARcBGAEZARoBGwBoaQ=='') @ [0x20]) (of_ascii ''longpass1'' @ [0]) = Inr (of_ascii ''hi'')
   \<and> (\<exists>bin pt. atob (of_ascii
        ''AAECAwQFBgcICQoLDA0ODxAREhMUFRYXGBkaGwFsAW8BbgFnAXABYQFzAXMBMQEAAQABAAEAAQABAAEAAQABAAEAAQABAAEAAQABAAEAAQABAAEAAQABAAEAAQABAAEAAQABAAEAAQABAAEAAQABAAEAAQABAAEAAQABAAEAAQABAAEAAQABAAEAAQABAAEAAQABAAEAAQABAAEAAAEAAQEBAgEDAQQBBQEGAQcBCAEJAQoBCwEMAQ0BDgEPAAEQAREBEgETARQBFQEWARcBGAEZARoBGwBoaQ=='') = Inr bin
        \<and> aes_gcm_decrypt ref_webcrypto
             (deriveKey ref_webcrypto (of_ascii ''longpass1'' @ [0])
                (slice' 0 16 (Uint8Array_from bin)))
             (slice' 16 28 (Uint8Array_from bin)) (drop 28 (Uint8Array_from bin)) = Some pt
        \<and> of_ascii ''hi'' = TextDecoder_decode pt)"
proof -
  let ?t = "(of_ascii
        ''AAECAwQFBgcICQoLDA0ODxAREhMUFRYXGBkaGwFsAW8BbgFnAXABYQFzAXMBMQEAAQABAAEAAQABAAEAAQABAAEAAQABAAEAAQABAAEAAQABAAEAAQABAAEAAQABAAEAAQABAAEAAQABAAEAAQABAAEAAQABAAEAAQABAAEAAQABAAEAAQABAAEAAQABAAEAAQABAAEAAQABAAEAAAEAAQEBAgEDAQQBBQEGAQcBCAEJAQoBCwEMAQ0BDgEPAAEQAREBEgETARQBFQEWARcBGAEZARoBGwBoaQ=='')"
  let ?r = "random_bytes ref_world"
  note out = decrypt_outcome[OF token_hi]
  have bad: "decrypt_try ref_webcrypto (of_ascii ''!'') (of_ascii ''longpass1'')
               = Inl InvalidCharacterError"
    by (simp add: decrypt_try_def atob_def ascii_whitespace_def of_ascii_def)
  have zeros: "aes_gcm_decrypt ref_webcrypto
                 (deriveKey ref_webcrypto (of_ascii ''longpass1'') (slice' 0 16 (replicate 29 0)))
                 (slice' 16 28 (replicate 29 0)) (drop 28 (replicate 29 0)) = None"
    by (simp add: ref_webcrypto_def ref_decrypt_def ref_header_def frame_def deriveKey_def
        hmac_key_def Let_def)
  have space: "atob (?t @ [0x20]) = atob ?t"
    by (rule atob_whitespace) (simp add: ascii_whitespace_def)
  note other = ref_other_key[OF padded_secret(3), of "drawn_salt ?r" "drawn_iv ?r"
      "TextEncoder_encode (of_ascii ''hi'')"]
  note a = out[of "of_ascii ''longpass2''" "replicate 29 0" "of_ascii ''!''" "of_ascii ''longpass1''"
      InvalidCharacterError "?t @ [0x20]" ?t "of_ascii ''longpass2''" "of_ascii ''hi''"]
  from a other have wrong: "decrypt_try ref_webcrypto ?t (of_ascii ''longpass2'') = Inl OperationError"
    by simp
  from a bad have bad': "decrypt ref_webcrypto (of_ascii ''!'') (of_ascii ''longpass1'')
                           = Inl DecryptionFailed"
    by blast
  note b = out[of "of_ascii ''longpass2''" "replicate 29 0" ?t "of_ascii ''longpass2''"
      OperationError "?t @ [0x20]" ?t "of_ascii ''longpass2''" "of_ascii ''hi''"]
  from b wrong have wrong': "decrypt ref_webcrypto ?t (of_ascii ''longpass2'') = Inl DecryptionFailed"
    by blast
  note c = out[of "of_ascii ''longpass1'' @ [0]" "replicate 29 0" "of_ascii ''!''"
      "of_ascii ''longpass1''" InvalidCharacterError "?t @ [0x20]" ?t "of_ascii ''longpass1'' @ [0]"
      "of_ascii ''hi''"]
  from c ref_aead_correct padded_secret(2) decode_hi
  have ok: "decrypt ref_webcrypto ?t (of_ascii ''longpass1'' @ [0]) = Inr (of_ascii ''hi'')"
    by simp
  note d = out[of "of_ascii ''longpass1''" "replicate 29 0" "of_ascii ''!''"
      "of_ascii ''longpass1''" InvalidCharacterError "?t @ [0x20]" ?t "of_ascii ''longpass1'' @ [0]"
      "of_ascii ''hi''"]
  from d zeros
  have z: "decrypt_try ref_webcrypto (base64_encode (replicate 29 0)) (of_ascii ''longpass1'')
             = Inl OperationError"
    by simp
  from c space ok
  have sp: "decrypt ref_webcrypto (?t @ [0x20]) (of_ascii ''longpass1'' @ [0]) = Inr (of_ascii ''hi'')"
    by simp
  from c ok
  have ex: "\<exists>bin pt. atob ?t = Inr bin
        \<and> aes_gcm_decrypt ref_webcrypto
             (deriveKey ref_webcrypto (of_ascii ''longpass1'' @ [0])
                (slice' 0 16 (Uint8Array_from bin)))
             (slice' 16 28 (Uint8Array_from bin)) (drop 28 (Uint8Array_from bin)) = Some pt
        \<and> of_ascii ''hi'' = TextDecoder_decode pt"
    by blast
  from token_hi wrong wrong' bad bad' z ref_aead_correct padded_secret(2) ok space sp ex
  show ?thesis by blast
qed

lemmas decrypt_eval = atob_def b64_index_def ascii_whitespace_def strip_equals_def
  binary_string_def Uint8Array_from_def decrypt_def decrypt_try_def slice'_def
  ref_webcrypto_def ref_decrypt_def ref_header_def frame_def hmac_key_def deriveKey_def
  TextDecoder_decode_def utf8_init_def strip_bom_def utf16_of_scalar_def replicate_numeral'

text \<open>
  The claim as written fails twice over. The secret \<open>longpass1\<close> followed by U+0000 is
  another secret, yet PBKDF2 derives from it the key of \<open>longpass1\<close>, since HMAC fills
  a key shorter than its block with zero bytes, and it decrypts the token. And the
  text of the token with its last character before the padding changed from \<open>Q\<close> to
  \<open>R\<close> is another text, of which \<open>atob\<close> discards the bits that differ, and \<open>decrypt\<close>
  accepts it.
\<close>

theorem decrypt_accepts_counterexample:
  "fst (encrypt ref_webcrypto (of_ascii ''hi'') (of_ascii ''longpass1'') (random_bytes ref_world))
     = Inr (of_ascii
        ''AAECAwQFBgcICQoLDA0ODxAREhMUFRYXGBkaGwFsAW8BbgFnAXABYQFzAXMBMQEAAQABAAEAAQABAAEAAQABAAEAAQABAAEAAQABAAEAAQABAAEAAQABAAEAAQABAAEAAQABAAEAAQABAAEAAQABAAEAAQABAAEAAQABAAEAAQABAAEAAQABAAEAAQABAAEAAQABAAEAAQABAAEAAAEAAQEBAgEDAQQBBQEGAQcBCAEJAQoBCwEMAQ0BDgEPAAEQAREBEgETARQBFQEWARcBGAEZARoBGwBoaQ=='')
   \<and> of_ascii ''longpass1'' @ [0] \<noteq> of_ascii ''longpass1''
   \<and> decrypt ref_webcrypto (of_ascii
        ''AAECAwQFBgcICQoLDA0ODxAREhMUFRYXGBkaGwFsAW8BbgFnAXABYQFzAXMBMQEAAQABAAEAAQABAAEAAQABAAEAAQABAAEAAQABAAEAAQABAAEAAQABAAEAAQABAAEAAQABAAEAAQABAAEAAQABAAEAAQABAAEAAQABAAEAAQABAAEAAQABAAEAAQABAAEAAQABAAEAAQABAAEAAAEAAQEBAgEDAQQBBQEGAQcBCAEJAQoBCwEMAQ0BDgEPAAEQAREBEgETARQBFQEWARcBGAEZARoBGwBoaQ=='') (of_ascii ''longpass1'' @ [0]) = Inr (of_ascii ''hi'')
   \<and> (of_ascii
        ''AAECAwQFBgcICQoLDA0ODxAREhMUFRYXGBkaGwFsAW8BbgFnAXABYQFzAXMBMQEAAQABAAEAAQABAAEAAQABAAEAAQABAAEAAQABAAEAAQABAAEAAQABAAEAAQABAAEAAQABAAEAAQABAAEAAQABAAEAAQABAAEAAQABAAEAAQABAAEAAQABAAEAAQABAAEAAQABAAEAAQABAAEAAAEAAQEBAgEDAQQBBQEGAQcBCAEJAQoBCwEMAQ0BDgEPAAEQAREBEgETARQBFQEWARcBGAEZARoBGwBoaR=='')
     \<noteq> (of_ascii
        ''AAECAwQFBgcICQoLDA0ODxAREhMUFRYXGBkaGwFsAW8BbgFnAXABYQFzAXMBMQEAAQABAAEAAQABAAEAAQABAAEAAQABAAEAAQABAAEAAQABAAEAAQABAAEAAQABAAEAAQABAAEAAQABAAEAAQABAAEAAQABAAEAAQABAAEAAQABAAEAAQABAAEAAQABAAEAAQABAAEAAQABAAEAAAEAAQEBAgEDAQQBBQEGAQcBCAEJAQoBCwEMAQ0BDgEPAAEQAREBEgETARQBFQEWARcBGAEZARoBGwBoaQ=='')
   \<and> decrypt ref_webcrypto (of_ascii
        ''AAECAwQFBgcICQoLDA0ODxAREhMUFRYXGBkaGwFsAW8BbgFnAXABYQFzAXMBMQEAAQABAAEAAQABAAEAAQABAAEAAQABAAEAAQABAAEAAQABAAEAAQABAAEAAQABAAEAAQABAAEAAQABAAEAAQABAAEAAQABAAEAAQABAAEAAQABAAEAAQABAAEAAQABAAEAAQABAAEAAQABAAEAAAEAAQEBAgEDAQQBBQEGAQcBCAEJAQoBCwEMAQ0BDgEPAAEQAREBEgETARQBFQEWARcBGAEZARoBGwBoaR=='') (of_ascii ''longpass1'') = Inr (of_ascii ''hi'')"
proof -
  have "decrypt ref_webcrypto (of_ascii
        ''AAECAwQFBgcICQoLDA0ODxAREhMUFRYXGBkaGwFsAW8BbgFnAXABYQFzAXMBMQEAAQABAAEAAQABAAEAAQABAAEAAQABAAEAAQABAAEAAQABAAEAAQABAAEAAQABAAEAAQABAAEAAQABAAEAAQABAAEAAQABAAEAAQABAAEAAQABAAEAAQABAAEAAQABAAEAAQABAAEAAQABAAEAAAEAAQEBAgEDAQQBBQEGAQcBCAEJAQoBCwEMAQ0BDgEPAAEQAREBEgETARQBFQEWARcBGAEZARoBGwBoaQ=='') (of_ascii ''longpass1'' @ [0]) = Inr (of_ascii ''hi'')"
    using same_key_decodes[OF ref_aead_correct token_hi padded_secret(2)] decode_hi by simp
  moreover have "decrypt ref_webcrypto (of_ascii
        ''AAECAwQFBgcICQoLDA0ODxAREhMUFRYXGBkaGwFsAW8BbgFnAXABYQFzAXMBMQEAAQABAAEAAQABAAEAAQABAAEAAQABAAEAAQABAAEAAQABAAEAAQABAAEAAQABAAEAAQABAAEAAQABAAEAAQABAAEAAQABAAEAAQABAAEAAQABAAEAAQABAAEAAQABAAEAAQABAAEAAQABAAEAAAEAAQEBAgEDAQQBBQEGAQcBCAEJAQoBCwEMAQ0BDgEPAAEQAREBEgETARQBFQEWARcBGAEZARoBGwBoaR=='') (of_ascii ''longpass1'') = Inr (of_ascii ''hi'')"
    by (simp add: decrypt_eval text_eval Let_def)
  moreover have "(of_ascii
        ''AAECAwQFBgcICQoLDA0ODxAREhMUFRYXGBkaGwFsAW8BbgFnAXABYQFzAXMBMQEAAQABAAEAAQABAAEAAQABAAEAAQABAAEAAQABAAEAAQABAAEAAQABAAEAAQABAAEAAQABAAEAAQABAAEAAQABAAEAAQABAAEAAQABAAEAAQABAAEAAQABAAEAAQABAAEAAQABAAEAAQABAAEAAAEAAQEBAgEDAQQBBQEGAQcBCAEJAQoBCwEMAQ0BDgEPAAEQAREBEgETARQBFQEWARcBGAEZARoBGwBoaR=='')
     \<noteq> (of_ascii
        ''AAECAwQFBgcICQoLDA0ODxAREhMUFRYXGBkaGwFsAW8BbgFnAXABYQFzAXMBMQEAAQABAAEAAQABAAEAAQABAAEAAQABAAEAAQABAAEAAQABAAEAAQABAAEAAQABAAEAAQABAAEAAQABAAEAAQABAAEAAQABAAEAAQABAAEAAQABAAEAAQABAAEAAQABAAEAAQABAAEAAQABAAEAAAEAAQEBAgEDAQQBBQEGAQcBCAEJAQoBCwEMAQ0BDgEPAAEQAREBEgETARQBFQEWARcBGAEZARoBGwBoaQ=='')"
    by (simp add: of_ascii_def)
  ultimately show ?thesis using token_hi padded_secret(1) by simp
qed

text \<open>
  Two secrets that differ only in an unpaired surrogate and U+FFFD have the same
  UTF-8 bytes, hence the same key: the second decrypts the token of the first.
\<close>

lemma decrypt_equivalent_secret:
  assumes "fst (encrypt wc P [0xD800, 0x61] r) = Inr token" and "aead_correct wc"
  shows "decrypt wc token [0xFFFD, 0x61] = Inr (TextDecoder_decode (TextEncoder_encode P))"
proof -
  have "TextEncoder_encode [0xFFFD, 0x61] = TextEncoder_encode [0xD800, 0x61]"
    by (simp add: text_eval)
  then have "deriveKey wc [0xFFFD, 0x61] (drawn_salt r) = deriveKey wc [0xD800, 0x61] (drawn_salt r)"
    by (simp add: deriveKey_def)
  with assms show ?thesis by (simp add: same_key_decodes)
qed

section \<open>\<open>LocalStorageService\<close>: loading an empty vault\<close>

text \<open>
  C10. When \<open>localStorage\<close> holds no entry blob, \<open>getEntries\<close> returns the empty
  list whatever master password it is given and whatever the platform services are:
  nothing is decrypted and the stored verifier is not consulted.
\<close>

theorem getEntries_no_blob:
  assumes "localStorage w ENTRIES_KEY = None"
  shows "LocalStorageService_getEntries wc js mp w = Inr []"
  using assms by (simp add: LocalStorageService_getEntries_def)

text \<open>
  A vault whose verifier was set with \<open>longpass1\<close> and that holds no entries: loading
  with \<open>wrongpass\<close> succeeds, although verification of \<open>wrongpass\<close> fails.
\<close>

theorem getEntries_no_blob_witness:
  "localStorage (LocalStorageService_setMasterPassword ref_webcrypto (of_ascii ''longpass1'')
                   ref_world) ENTRIES_KEY = None
   \<and> \<not> LocalStorageService_verifyMasterPassword ref_webcrypto (of_ascii ''wrongpass'')
         (LocalStorageService_setMasterPassword ref_webcrypto (of_ascii ''longpass1'') ref_world)
   \<and> LocalStorageService_getEntries ref_webcrypto ref_json (of_ascii ''wrongpass'')
       (LocalStorageService_setMasterPassword ref_webcrypto (of_ascii ''longpass1'') ref_world)
     = Inr []"
proof -
  let ?w = "LocalStorageService_setMasterPassword ref_webcrypto (of_ascii ''longpass1'') ref_world"
  have none: "localStorage ?w ENTRIES_KEY = None"
    by (simp add: LocalStorageService_setMasterPassword_def ref_world_def ENTRIES_KEY_def
        MASTER_PASSWORD_HASH_KEY_def Let_def)
  have wrong: "\<not> LocalStorageService_verifyMasterPassword ref_webcrypto (of_ascii ''wrongpass'') ?w"
    by (simp add: LocalStorageService_verifyMasterPassword_def
        LocalStorageService_setMasterPassword_def Let_def truthy_def hashPassword_def
        ref_webcrypto_def hex_string_def text_eval hex_digit_def)
  from getEntries_no_blob[OF none, of ref_webcrypto ref_json "of_ascii ''wrongpass''"] none wrong
  show ?thesis by simp
qed

section \<open>\<open>LocalStorageService\<close>: the verifier\<close>

lemma hex_string_empty: "hex_string bs = [] \<longleftrightarrow> bs = []"
  by (cases bs) (simp_all add: hex_string_def)

text \<open>
  C5, as the code has it. \<open>setMasterPassword\<close> stores the hexadecimal SHA-256 digest
  of the UTF-8 bytes of the secret and nothing else: no salt is drawn (the random
  generator is left as it was) and none is stored. The verifier does not depend on
  PBKDF2 or AES-GCM, and a secret whose digest is not empty verifies against its own
  verifier.
\<close>

theorem setMasterPassword_verifier:
  "localStorage (LocalStorageService_setMasterPassword wc pw w)
     = (localStorage w)(MASTER_PASSWORD_HASH_KEY \<mapsto>
          hex_string (sha256 wc (TextEncoder_encode pw)))
   \<and> random_bytes (LocalStorageService_setMasterPassword wc pw w) = random_bytes w
   \<and> LocalStorageService_setMasterPassword
        (wc\<lparr>pbkdf2 := kdf, aes_gcm_encrypt := enc, aes_gcm_decrypt := dec\<rparr>) pw w
      = LocalStorageService_setMasterPassword wc pw w
   \<and> (sha256 wc (TextEncoder_encode pw) \<noteq> [] \<longrightarrow>
        LocalStorageService_verifyMasterPassword wc pw
          (LocalStorageService_setMasterPassword wc pw w))"
  by (simp add: LocalStorageService_setMasterPassword_def
      LocalStorageService_verifyMasterPassword_def hashPassword_def Let_def truthy_def
      hex_string_empty)

theorem setMasterPassword_verifier_witness:
  "sha256 ref_webcrypto (TextEncoder_encode (of_ascii ''longpass1'')) \<noteq> []
   \<and> LocalStorageService_verifyMasterPassword ref_webcrypto (of_ascii ''longpass1'')
       (LocalStorageService_setMasterPassword ref_webcrypto (of_ascii ''longpass1'') ref_world)"
proof -
  have "sha256 ref_webcrypto (TextEncoder_encode (of_ascii ''longpass1'')) \<noteq> []"
    by (simp add: ref_webcrypto_def)
  with setMasterPassword_verifier[of ref_webcrypto "of_ascii ''longpass1''" ref_world]
  show ?thesis by simp
qed

text \<open>
  The claim as written fails: on two environments whose random generators differ in
  every byte the same secret gets the same verifier, the digest of the bare secret,
  and the verifier is the only item stored.
\<close>

theorem setMasterPassword_unsalted_counterexample:
  "localStorage (LocalStorageService_setMasterPassword ref_webcrypto (of_ascii ''longpass1'')
                   ref_world) MASTER_PASSWORD_HASH_KEY
     = Some (hex_string (sha256 ref_webcrypto (TextEncoder_encode (of_ascii ''longpass1''))))
   \<and> localStorage (LocalStorageService_setMasterPassword ref_webcrypto (of_ascii ''longpass1'')
                     (ref_world\<lparr>random_bytes := (\<lambda>i. of_nat i + 1)\<rparr>)) MASTER_PASSWORD_HASH_KEY
     = localStorage (LocalStorageService_setMasterPassword ref_webcrypto (of_ascii ''longpass1'')
                       ref_world) MASTER_PASSWORD_HASH_KEY
   \<and> dom (localStorage (LocalStorageService_setMasterPassword ref_webcrypto
                           (of_ascii ''longpass1'') ref_world))
     = {MASTER_PASSWORD_HASH_KEY}"
  by (simp add: LocalStorageService_setMasterPassword_def hashPassword_def Let_def ref_world_def)

section \<open>\<open>LocalDataSource\<close>: every mutation rewrites the whole blob\<close>






























section \<open>\<open>VaultProvider\<close>: operations without a master password\<close>

text \<open>
  C7, as the code has it. When the provider holds no master password (\<open>null\<close> or the
  empty string) and has no data source or no signed-in user, \<open>addEntry\<close>,
  \<open>updateEntry\<close>, \<open>deleteEntry\<close> and \<open>refreshEntries\<close> return normally and leave the
  provider state and the environment as they were. No operation raises an error for
  a locked vault; the code has no such error.
\<close>

theorem VaultProvider_locked_noop:
  assumes "\<not> truthy (masterPassword vs)" and "dataSource vs = None \<or> user a = None"
  shows "VaultProvider_addEntry wc js a entry vs w = (Inr (), vs, w)
     \<and> VaultProvider_updateEntry wc js a i patch vs w = (Inr (), vs, w)
     \<and> VaultProvider_deleteEntry wc js a i vs w = (Inr (), vs, w)
     \<and> VaultProvider_refreshEntries wc js a vs w = (vs, w)"
proof -
  from assms(2) have ds: "addEntry_dataSource a entry vs w = (Inr (), vs, w)"
    "updateEntry_dataSource a i patch vs w = (Inr (), vs, w)"
    "deleteEntry_dataSource a i vs w = (Inr (), vs, w)"
    by (auto simp: addEntry_dataSource_def updateEntry_dataSource_def deleteEntry_dataSource_def
        split: option.splits)
  from assms(1) have loc: "refreshEntries_local wc js a vs w = (vs, w)"
    by (auto simp: refreshEntries_local_def truthy_def split: option.splits)
  from assms(2) have "VaultProvider_refreshEntries wc js a vs w = refreshEntries_local wc js a vs w"
    by (auto simp: VaultProvider_refreshEntries_def split: option.splits)
  with loc have "VaultProvider_refreshEntries wc js a vs w = (vs, w)" by simp
  moreover from assms(1) ds have "VaultProvider_addEntry wc js a entry vs w = (Inr (), vs, w)"
    by (auto simp: VaultProvider_addEntry_def truthy_def split: option.splits)
  moreover from assms(1) ds have "VaultProvider_updateEntry wc js a i patch vs w = (Inr (), vs, w)"
    by (auto simp: VaultProvider_updateEntry_def truthy_def split: option.splits)
  moreover from assms(1) ds have "VaultProvider_deleteEntry wc js a i vs w = (Inr (), vs, w)"
    by (auto simp: VaultProvider_deleteEntry_def truthy_def split: option.splits)
  ultimately show ?thesis by simp
qed

theorem VaultProvider_locked_noop_witness:
  "\<not> truthy (masterPassword locked_state)
   \<and> (dataSource locked_state = None \<or> user guest = None)
   \<and> VaultProvider_addEntry ref_webcrypto ref_json guest gmail_input locked_state ref_world
       = (Inr (), locked_state, ref_world)
   \<and> VaultProvider_updateEntry ref_webcrypto ref_json guest (of_ascii ''1'') title_patch
        locked_state ref_world
       = (Inr (), locked_state, ref_world)
   \<and> VaultProvider_deleteEntry ref_webcrypto ref_json guest (of_ascii ''1'') locked_state ref_world
       = (Inr (), locked_state, ref_world)
   \<and> VaultProvider_refreshEntries ref_webcrypto ref_json guest locked_state ref_world
       = (locked_state, ref_world)"
proof -
  have h1: "\<not> truthy (masterPassword locked_state)"
    by (simp add: locked_state_def truthy_def)
  have h2: "dataSource locked_state = None \<or> user guest = None"
    by (simp add: locked_state_def)
  from VaultProvider_locked_noop[OF h1 h2, of ref_webcrypto ref_json gmail_input ref_world
      "of_ascii ''1''" title_patch] h1 h2
  show ?thesis by simp
qed

text \<open>
  The claim as written fails: in a guest session that holds no master password,
  \<open>addEntry\<close> returns without an error and without having done anything.
\<close>

theorem VaultProvider_locked_counterexample:
  "masterPassword locked_state = None
   \<and> VaultProvider_addEntry ref_webcrypto ref_json guest gmail_input locked_state ref_world
       = (Inr (), locked_state, ref_world)"
  by (simp add: VaultProvider_addEntry_def addEntry_dataSource_def locked_state_def guest_def)

section \<open>\<open>calculateStrength\<close> against the heuristic of the specification\<close>

lemma regex_test_class:
  "regex_test [CharClass negated rs] s = (count_class negated rs s \<ge> 1)"
  by (induction s) (auto simp: count_class_def)

lemma match_here_dotstar_class:
  "\<forall>c \<in> set s. \<not> line_terminator c \<Longrightarrow>
   match_here [DotStar, CharClass negated rs] s = (count_class negated rs s \<ge> 1)"
  by (induction s) (auto simp: count_class_def)

lemma match_here_twice:
  "\<forall>c \<in> set s. \<not> line_terminator c \<Longrightarrow>
   match_here [CharClass negated rs, DotStar, CharClass negated rs] s =
     (case s of [] \<Rightarrow> False
      | c # cs \<Rightarrow> class_matches negated rs c \<and> count_class negated rs cs \<ge> 1)"
  by (cases s) (simp_all add: match_here_dotstar_class del: class_matches.simps)

lemma regex_test_twice:
  "\<forall>c \<in> set s. \<not> line_terminator c \<Longrightarrow>
   regex_test [CharClass negated rs, DotStar, CharClass negated rs] s =
     (count_class negated rs s \<ge> 2)"
proof (induction s)
  case Nil
  then show ?case by (simp add: count_class_def)
next
  case (Cons c cs)
  then have nolt: "\<forall>x \<in> set (c # cs). \<not> line_terminator x"
    and nolt': "\<forall>x \<in> set cs. \<not> line_terminator x"
    by simp_all
  have "regex_test [CharClass negated rs, DotStar, CharClass negated rs] (c # cs) =
        ((class_matches negated rs c \<and> count_class negated rs cs \<ge> 1)
         \<or> count_class negated rs cs \<ge> 2)"
    using match_here_twice[OF nolt, of negated rs] Cons.IH[OF nolt']
    by (simp del: class_matches.simps match_here.simps)
  also have "\<dots> = (count_class negated rs (c # cs) \<ge> 2)"
    by (auto simp: count_class_def simp del: class_matches.simps)
  finally show ?case .
qed

lemma calculateStrength_score: "score (calculateStrength s) = min (raw_score s) 100"
  by (simp add: calculateStrength_def Let_def)

text \<open>
  On a string without line terminators the score is the heuristic of the
  specification, for every string it is at most 100, and the label follows the
  thresholds 40, 60 and 80.
\<close>

lemma calculateStrength_heuristic:
  assumes "\<forall>c \<in> set s. \<not> line_terminator c"
  shows "score (calculateStrength s) = heuristic_score s"
  unfolding calculateStrength_score raw_score_def heuristic_score_def class_bonus_def
  by (simp only: regex_test_class regex_test_twice[OF assms] min.commute)

lemma calculateStrength_range: "score (calculateStrength s) \<le> 100"
  by (simp add: calculateStrength_score)

lemma calculateStrength_label:
  "label (calculateStrength s) = heuristic_label (score (calculateStrength s))"
  by (auto simp: calculateStrength_def Let_def heuristic_label_def)

lemma calculateStrength_ordering:
  "score (calculateStrength (of_ascii ''a'')) < score (calculateStrength (of_ascii ''aaaaaaaa''))
   \<and> score (calculateStrength (of_ascii ''aaaaaaaa''))
       < score (calculateStrength (of_ascii ''Aa1!aaaa''))"
  by code_simp

text \<open>
  C9. The string \<open>a\<close>, U+2028, \<open>a\<close> has two lowercase letters, so the heuristic of
  the specification gives 10 + 5 for lowercase and 10 for the symbol: 25. The pattern
  \<open>/[a-z].*[a-z]/\<close> does not match it, because \<open>.\<close> does not match the line
  separator, and \<open>calculateStrength\<close> returns 20. The same holds with a line feed in
  place of U+2028.
\<close>

theorem calculateStrength_line_terminator:
  "score (calculateStrength [0x61, 0x2028, 0x61]) = 20
   \<and> heuristic_score [0x61, 0x2028, 0x61] = 25
   \<and> count_class False lower_ranges [0x61, 0x2028, 0x61] = 2
   \<and> \<not> regex_test [CharClass False lower_ranges, DotStar, CharClass False lower_ranges]
          [0x61, 0x2028, 0x61]
   \<and> score (calculateStrength [0x61, 0x0A, 0x61]) = 20
   \<and> heuristic_score [0x61, 0x0A, 0x61] = 25"
  by code_simp

end
